theory Spec2Isabelle
  imports Main "HOL-Library.Word"
begin

unbundle bit_operations_syntax

section \<open>Byte slices: \<open>net.IP\<close> and \<open>net.IPMask\<close>\<close>

text \<open>
  Go's \<open>net.IP\<close> and \<open>net.IPMask\<close> are byte slices. A slice is modelled as the list of
  its bytes and the nil slice as the empty list: \<open>len\<close>, \<open>range\<close> and indexing treat a nil
  slice and an empty one alike, and the only results the program compares with \<open>nil\<close>
  are those of \<open>To4\<close>, which is either nil or four bytes long.
\<close>

type_synonym byte = "8 word"
type_synonym net_IP = "byte list"
type_synonym net_IPMask = "byte list"

definition IPv4len :: nat where
  "IPv4len = 4"

definition IPv6len :: nat where
  "IPv6len = 16"

definition v4InV6Prefix :: "byte list" where
  "v4InV6Prefix = [0, 0, 0, 0, 0, 0, 0, 0, 0, 0, 0xff, 0xff]"

text \<open>\<open>net.IPv4(a, b, c, d)\<close>: the 16-byte form of an IPv4 address.\<close>

definition IPv4 :: "byte \<Rightarrow> byte \<Rightarrow> byte \<Rightarrow> byte \<Rightarrow> net_IP" where
  "IPv4 a b c d = v4InV6Prefix @ [a, b, c, d]"

definition isZeros :: "byte list \<Rightarrow> bool" where
  "isZeros p = list_all (\<lambda>b. b = 0) p"

definition allFF :: "byte list \<Rightarrow> bool" where
  "allFF b = list_all (\<lambda>c. c = 0xff) b"

text \<open>\<open>ip.To4()\<close>: the 4-byte form, nil when \<open>ip\<close> is not an IPv4 address.\<close>

definition To4 :: "net_IP \<Rightarrow> net_IP" where
  "To4 ip =
     (if length ip = IPv4len then ip
      else if length ip = IPv6len \<and> isZeros (take 10 ip) \<and> ip ! 10 = 0xff \<and> ip ! 11 = 0xff
        then drop 12 ip
      else [])"

text \<open>\<open>ip.To16()\<close>: the 16-byte form, nil when \<open>ip\<close> has the wrong length.\<close>

definition To16 :: "net_IP \<Rightarrow> net_IP" where
  "To16 ip =
     (if length ip = IPv4len then IPv4 (ip ! 0) (ip ! 1) (ip ! 2) (ip ! 3)
      else if length ip = IPv6len then ip
      else [])"

text \<open>
  \<open>ip.Mask(mask)\<close>: a 16-byte mask whose first twelve bytes are \<open>0xff\<close> is cut to four
  bytes for a 4-byte address, a 16-byte IPv4-mapped address is cut to four bytes for a
  4-byte mask; the result is nil when the lengths still differ, and a fresh slice of the
  bytewise conjunction otherwise.
\<close>

definition IP_Mask :: "net_IP \<Rightarrow> net_IPMask \<Rightarrow> net_IP" where
  "IP_Mask ip0 mask0 =
     (let mask1 = (if length mask0 = IPv6len \<and> length ip0 = IPv4len \<and> allFF (take 12 mask0)
                   then drop 12 mask0 else mask0);
          ip1 = (if length mask1 = IPv4len \<and> length ip0 = IPv6len \<and> take 12 ip0 = v4InV6Prefix
                 then drop 12 ip0 else ip0)
      in if length ip1 \<noteq> length mask1 then []
         else map2 (\<lambda>b m. b AND m) ip1 mask1)"

section \<open>Parsing CIDR literals (\<open>net.ParseCIDR\<close>)\<close>

text \<open>
  The program hands every host entry of the configuration to \<open>net.ParseCIDR\<close> of the Go
  standard library. The library code is modelled after the sources of its current
  release: \<open>netip.ParseAddr\<close> with \<open>parseIPv4Fields\<close> and \<open>parseIPv6\<close>, \<open>dtoi\<close>,
  \<open>CIDRMask\<close> and \<open>ParseCIDR\<close>. A string is the list of its bytes. What the properties
  below need of the parser is the shape of its result: the address in 16-byte form,
  unmasked, and a mask of four bytes for a dotted literal and of sixteen otherwise.
\<close>

datatype error =
    ParseError string string   \<comment> \<open>\<open>&net.ParseError{Type, Text}\<close>\<close>
  | YamlError string           \<comment> \<open>an error of the YAML decoder\<close>
  | OSError string             \<comment> \<open>an error of the operating system or the network\<close>

text \<open>A run-time panic of Go: \<open>index out of range [i] with length n\<close>.\<close>

datatype panic = IndexOutOfRange nat nat

text \<open>
  \<open>netip.Addr\<close>: an IPv4 address of four bytes, or an IPv6 address of sixteen bytes with
  its zone.
\<close>

datatype netip_Addr = Addr4 "byte list" | Addr6 "byte list" string

definition is_digit :: "char \<Rightarrow> bool" where
  "is_digit c \<longleftrightarrow> (of_char (CHR ''0'') :: nat) \<le> of_char c \<and> (of_char c :: nat) \<le> of_char (CHR ''9'')"

definition digit_val :: "char \<Rightarrow> nat" where
  "digit_val c = of_char c - of_char (CHR ''0'')"

definition hex_val :: "char \<Rightarrow> nat option" where
  "hex_val c =
     (let n = (of_char c :: nat) in
      if of_char (CHR ''0'') \<le> n \<and> n \<le> of_char (CHR ''9'') then Some (n - of_char (CHR ''0''))
      else if of_char (CHR ''a'') \<le> n \<and> n \<le> of_char (CHR ''f'') then Some (n - of_char (CHR ''a'') + 10)
      else if of_char (CHR ''A'') \<le> n \<and> n \<le> of_char (CHR ''F'') then Some (n - of_char (CHR ''A'') + 10)
      else None)"

text \<open>
  The loop of \<open>parseIPv4Fields\<close> over \<open>s\<close>: \<open>n\<close> is \<open>len(s)\<close>, \<open>i\<close> the index of the next
  byte, \<open>prev\<close> the byte before it, \<open>val\<close>, \<open>pos\<close> and \<open>digLen\<close> the loop's variables.
  An octet with a leading zero, a value above 255, an empty field, a fifth field, any
  other character and fewer than four fields are errors.
\<close>

fun parseIPv4Fields_loop ::
  "nat \<Rightarrow> string \<Rightarrow> nat \<Rightarrow> char \<Rightarrow> nat \<Rightarrow> nat \<Rightarrow> nat \<Rightarrow> byte list \<Rightarrow> byte list option" where
  "parseIPv4Fields_loop n [] i prev val pos digLen fields =
     (if pos < 3 then None else Some (fields[3 := of_nat val]))"
| "parseIPv4Fields_loop n (c # cs) i prev val pos digLen fields =
     (if is_digit c then
        (if digLen = 1 \<and> val = 0 then None
         else let val' = val * 10 + digit_val c in
           if val' > 255 then None
           else parseIPv4Fields_loop n cs (Suc i) c val' pos (Suc digLen) fields)
      else if c = CHR ''.'' then
        (if i = 0 \<or> Suc i = n \<or> prev = CHR ''.'' then None
         else if pos = 3 then None
         else parseIPv4Fields_loop n cs (Suc i) c 0 (Suc pos) 0 (fields[pos := of_nat val]))
      else None)"

definition parseIPv4Fields :: "string \<Rightarrow> byte list option" where
  "parseIPv4Fields s = parseIPv4Fields_loop (length s) s 0 (CHR ''0'') 0 0 0 [0, 0, 0, 0]"

definition parseIPv4 :: "string \<Rightarrow> (netip_Addr \<times> string) option" where
  "parseIPv4 s = map_option (\<lambda>fields. (Addr4 fields, [])) (parseIPv4Fields s)"

text \<open>
  The hexadecimal group at the head of \<open>s\<close> in \<open>parseIPv6\<close>: the number of digits read
  and their value; a fifth digit is an error.
\<close>

fun hex_group :: "string \<Rightarrow> nat \<Rightarrow> nat \<Rightarrow> (nat \<times> nat) option" where
  "hex_group [] off acc = Some (off, acc)"
| "hex_group (c # cs) off acc =
     (case hex_val c of
        None \<Rightarrow> Some (off, acc)
      | Some d \<Rightarrow>
          (let acc' = acc * 16 + d in
           if off > 3 then None
           else if acc' > 65535 then None
           else hex_group cs (Suc off) acc'))"

text \<open>
  The end of \<open>parseIPv6\<close>: the whole string must be used; fewer than sixteen bytes need
  an ellipsis, which is expanded to zero bytes; sixteen bytes allow none.
\<close>

definition parseIPv6_finish :: "string \<Rightarrow> nat \<Rightarrow> nat option \<Rightarrow> byte list \<Rightarrow> byte list option" where
  "parseIPv6_finish s i ellipsis ip =
     (if s \<noteq> [] then None
      else if i < 16 then
        (case ellipsis of
           None \<Rightarrow> None
         | Some e \<Rightarrow> Some (take e ip @ replicate (16 - i) 0 @ take (i - e) (drop e ip)))
      else if ellipsis \<noteq> None then None
      else Some ip)"

function parseIPv6_loop :: "string \<Rightarrow> nat \<Rightarrow> nat option \<Rightarrow> byte list \<Rightarrow> byte list option" where
  "parseIPv6_loop s i ellipsis ip =
     (if \<not> i < 16 then parseIPv6_finish s i ellipsis ip
      else case hex_group s 0 0 of
        None \<Rightarrow> None
      | Some (off, acc) \<Rightarrow>
          if off = 0 then None
          else if off < length s \<and> s ! off = CHR ''.'' then
            (if ellipsis = None \<and> i \<noteq> 12 then None
             else if i + 4 > 16 then None
             else case parseIPv4Fields s of
               None \<Rightarrow> None
             | Some f \<Rightarrow> parseIPv6_finish [] (i + 4) ellipsis (take i ip @ f @ drop (i + 4) ip))
          else
            (let ip' = ip[i := of_nat (acc div 256), Suc i := of_nat acc];
                 i' = i + 2;
                 s' = drop off s
             in if s' = [] then parseIPv6_finish s' i' ellipsis ip'
                else if hd s' \<noteq> CHR '':'' then None
                else if length s' = 1 then None
                else let s'' = tl s' in
                  if hd s'' = CHR '':'' then
                    (if ellipsis \<noteq> None then None
                     else if tl s'' = [] then parseIPv6_finish [] i' (Some i') ip'
                     else parseIPv6_loop (tl s'') i' (Some i') ip')
                  else parseIPv6_loop s'' i' ellipsis ip'))"
  by pat_completeness auto
termination
  by (relation "measure (\<lambda>(s, i, ellipsis, ip). 16 - i)") auto

declare parseIPv6_loop.simps [simp del]

text \<open>The position of the first \<open>c\<close> in \<open>s\<close> (\<open>IndexByteString\<close>), if any.\<close>

fun IndexByteString :: "string \<Rightarrow> char \<Rightarrow> nat option" where
  "IndexByteString [] c = None"
| "IndexByteString (x # xs) c =
     (if x = c then Some 0 else map_option Suc (IndexByteString xs c))"

definition zero16 :: "byte list" where
  "zero16 = [0, 0, 0, 0, 0, 0, 0, 0, 0, 0, 0, 0, 0, 0, 0, 0]"

definition parseIPv6 :: "string \<Rightarrow> (netip_Addr \<times> string) option" where
  "parseIPv6 inp =
     (let (s, zone, zone_ok) =
            (case IndexByteString inp (CHR ''%'') of
               None \<Rightarrow> (inp, [], True)
             | Some k \<Rightarrow> (take k inp, drop (Suc k) inp, drop (Suc k) inp \<noteq> []))
      in if \<not> zone_ok then None
         else if length s \<ge> 2 \<and> s ! 0 = CHR '':'' \<and> s ! 1 = CHR '':'' then
           (if drop 2 s = [] then Some (Addr6 zero16 zone, zone)
            else map_option (\<lambda>ip. (Addr6 ip zone, zone))
                   (parseIPv6_loop (drop 2 s) 0 (Some 0) zero16))
         else map_option (\<lambda>ip. (Addr6 ip zone, zone))
                (parseIPv6_loop s 0 None zero16))"

text \<open>
  \<open>netip.ParseAddr\<close>: the first of \<open>.\<close>, \<open>:\<close> and \<open>%\<close> in the string decides the form.
  The result is the address and its zone.
\<close>

fun ParseAddr_scan :: "string \<Rightarrow> string \<Rightarrow> (netip_Addr \<times> string) option" where
  "ParseAddr_scan s [] = None"
| "ParseAddr_scan s (c # cs) =
     (if c = CHR ''.'' then parseIPv4 s
      else if c = CHR '':'' then parseIPv6 s
      else if c = CHR ''%'' then None
      else ParseAddr_scan s cs)"

definition ParseAddr :: "string \<Rightarrow> (netip_Addr \<times> string) option" where
  "ParseAddr s = ParseAddr_scan s s"

fun BitLen :: "netip_Addr \<Rightarrow> nat" where
  "BitLen (Addr4 b) = 32"
| "BitLen (Addr6 b z) = 128"

fun As16 :: "netip_Addr \<Rightarrow> byte list" where
  "As16 (Addr4 b) = v4InV6Prefix @ b"
| "As16 (Addr6 b z) = b"

text \<open>
  \<open>dtoi\<close>: the decimal number at the head of \<open>s\<close>, the number of bytes read and whether
  a number below \<open>0xFFFFFF\<close> was read.
\<close>

fun dtoi_loop :: "string \<Rightarrow> nat \<Rightarrow> nat \<Rightarrow> nat \<times> nat \<times> bool" where
  "dtoi_loop [] n i = (if i = 0 then (0, 0, False) else (n, i, True))"
| "dtoi_loop (c # cs) n i =
     (if is_digit c then
        (let n' = n * 10 + digit_val c in
         if n' \<ge> 0xFFFFFF then (0xFFFFFF, i, False) else dtoi_loop cs n' (Suc i))
      else if i = 0 then (0, 0, False) else (n, i, True))"

definition dtoi :: "string \<Rightarrow> nat \<times> nat \<times> bool" where
  "dtoi s = dtoi_loop s 0 0"

text \<open>\<open>net.CIDRMask(ones, bits)\<close>: \<open>ones\<close> one-bits followed by zero-bits, \<open>bits\<close> in all.\<close>

fun CIDRMask_loop :: "nat \<Rightarrow> nat \<Rightarrow> byte list" where
  "CIDRMask_loop 0 n = []"
| "CIDRMask_loop (Suc l) n =
     (if n \<ge> 8 then 0xff # CIDRMask_loop l (n - 8)
      else NOT (drop_bit n 0xff) # CIDRMask_loop l 0)"

definition CIDRMask :: "nat \<Rightarrow> nat \<Rightarrow> net_IPMask" where
  "CIDRMask ones bits =
     (if bits \<noteq> 8 * IPv4len \<and> bits \<noteq> 8 * IPv6len then []
      else if ones > bits then []
      else CIDRMask_loop (bits div 8) ones)"

record IPNet =
  IPNet_IP :: net_IP
  IPNet_Mask :: net_IPMask

definition ParseCIDR :: "string \<Rightarrow> error + (net_IP \<times> IPNet)" where
  "ParseCIDR s =
     (case IndexByteString s (CHR ''/'') of
        None \<Rightarrow> Inl (ParseError ''CIDR address'' s)
      | Some i \<Rightarrow>
          (let addr = take i s; mask = drop (Suc i) s in
           case ParseAddr addr of
             None \<Rightarrow> Inl (ParseError ''CIDR address'' s)
           | Some (ipAddr, zone) \<Rightarrow>
               if zone \<noteq> [] then Inl (ParseError ''CIDR address'' s)
               else
                 (let (n, j, ok) = dtoi mask in
                  if \<not> ok \<or> j \<noteq> length mask \<or> n > BitLen ipAddr
                  then Inl (ParseError ''CIDR address'' s)
                  else
                    (let m = CIDRMask n (BitLen ipAddr); addr16 = As16 ipAddr
                     in Inr (addr16, \<lparr>IPNet_IP = IP_Mask addr16 m, IPNet_Mask = m\<rparr>)))))"

section \<open>The partial address of a host entry\<close>

record IP =
  IP_ip :: net_IP
  IP_mask :: net_IPMask

text \<open>
  \<open>UnmarshalYAML\<close>: \<open>unmarshal\<close> is what the decoder's callback does with \<open>&raw\<close>: it
  stores a string or returns an error, which the method ignores, so that \<open>raw\<close> stays
  empty. The method returns the receiver, updated, and its error.
\<close>

definition UnmarshalYAML :: "IP \<Rightarrow> (error + string) \<Rightarrow> IP \<times> error option" where
  "UnmarshalYAML i unmarshal =
     (let raw = (case unmarshal of Inl e \<Rightarrow> [] | Inr text \<Rightarrow> text) in
      case ParseCIDR raw of
        Inl err \<Rightarrow> (i, Some err)
      | Inr (ip, ipnet) \<Rightarrow> (i\<lparr>IP_ip := ip, IP_mask := IPNet_Mask ipnet\<rparr>, None))"

text \<open>
  The loop of \<open>ApplyIPToMask\<close>: \<open>newIp[idx] = newIp[idx] | val\<close> for every byte \<open>val\<close> of
  \<open>ourIp\<close>; an index beyond \<open>newIp\<close> panics. \<open>newIp\<close> is the slice that \<open>Mask\<close> has
  allocated (\<open>To16\<close> returns it, or a copy in 16-byte form), so the assignments change
  neither the discovered address nor the base, and the method is a function of the two.
\<close>

fun or_loop :: "net_IP \<Rightarrow> nat \<Rightarrow> byte list \<Rightarrow> panic + net_IP" where
  "or_loop newIp idx [] = Inr newIp"
| "or_loop newIp idx (val # rest) =
     (if idx < length newIp then or_loop (newIp[idx := (newIp ! idx) OR val]) (Suc idx) rest
      else Inl (IndexOutOfRange idx (length newIp)))"

definition ApplyIPToMask :: "IP \<Rightarrow> net_IP \<Rightarrow> panic + net_IP" where
  "ApplyIPToMask i ip =
     (let newIp = To16 (IP_Mask ip (IP_mask i));
          ourIp = To16 (IP_ip i)
      in or_loop newIp 0 ourIp)"

definition Is4 :: "IP \<Rightarrow> bool" where
  "Is4 i \<longleftrightarrow> To4 (IP_ip i) \<noteq> []"

section \<open>The interface address resolver\<close>

text \<open>The predicates of \<open>net.IP\<close> that \<open>IsGlobalUnicast\<close> is made of.\<close>

definition IPv4bcast :: net_IP where
  "IPv4bcast = IPv4 255 255 255 255"

definition IPv4zero :: net_IP where
  "IPv4zero = IPv4 0 0 0 0"

definition IPv6unspecified :: net_IP where
  "IPv6unspecified = [0, 0, 0, 0, 0, 0, 0, 0, 0, 0, 0, 0, 0, 0, 0, 0]"

definition IPv6loopback :: net_IP where
  "IPv6loopback = [0, 0, 0, 0, 0, 0, 0, 0, 0, 0, 0, 0, 0, 0, 0, 1]"

definition IP_Equal :: "net_IP \<Rightarrow> net_IP \<Rightarrow> bool" where
  "IP_Equal ip x \<longleftrightarrow>
     (if length ip = length x then ip = x
      else if length ip = IPv4len \<and> length x = IPv6len
        then take 12 x = v4InV6Prefix \<and> ip = drop 12 x
      else if length ip = IPv6len \<and> length x = IPv4len
        then take 12 ip = v4InV6Prefix \<and> drop 12 ip = x
      else False)"

definition IsUnspecified :: "net_IP \<Rightarrow> bool" where
  "IsUnspecified ip \<longleftrightarrow> IP_Equal ip IPv4zero \<or> IP_Equal ip IPv6unspecified"

definition IsLoopback :: "net_IP \<Rightarrow> bool" where
  "IsLoopback ip \<longleftrightarrow>
     (if To4 ip \<noteq> [] then To4 ip ! 0 = 127 else IP_Equal ip IPv6loopback)"

definition IsMulticast :: "net_IP \<Rightarrow> bool" where
  "IsMulticast ip \<longleftrightarrow>
     (if To4 ip \<noteq> [] then (To4 ip ! 0) AND 0xf0 = 0xe0
      else length ip = IPv6len \<and> ip ! 0 = 0xff)"

definition IsLinkLocalUnicast :: "net_IP \<Rightarrow> bool" where
  "IsLinkLocalUnicast ip \<longleftrightarrow>
     (if To4 ip \<noteq> [] then To4 ip ! 0 = 169 \<and> To4 ip ! 1 = 254
      else length ip = IPv6len \<and> ip ! 0 = 0xfe \<and> (ip ! 1) AND 0xc0 = 0x80)"

definition IsGlobalUnicast :: "net_IP \<Rightarrow> bool" where
  "IsGlobalUnicast ip \<longleftrightarrow>
     (length ip = IPv4len \<or> length ip = IPv6len) \<and>
     \<not> IP_Equal ip IPv4bcast \<and>
     \<not> IsUnspecified ip \<and>
     \<not> IsLoopback ip \<and>
     \<not> IsMulticast ip \<and>
     \<not> IsLinkLocalUnicast ip"

text \<open>
  A \<open>net.Addr\<close> is an interface value: a \<open>*net.IPNet\<close>, or a value of another type,
  which the type assertion of \<open>chooseUnicast\<close> rejects.
\<close>

datatype Addr = IPNetAddr IPNet | OtherAddr string

fun chooseUnicast :: "Addr list \<Rightarrow> IPNet list" where
  "chooseUnicast [] = []"
| "chooseUnicast (OtherAddr a # rest) = chooseUnicast rest"
| "chooseUnicast (IPNetAddr ipnet # rest) =
     (if \<not> IsGlobalUnicast (IPNet_IP ipnet) then chooseUnicast rest
      else ipnet # chooseUnicast rest)"

fun chooseFour :: "IPNet list \<Rightarrow> net_IP" where
  "chooseFour [] = []"
| "chooseFour (inet # rest) =
     (let v4 = To4 (IPNet_IP inet) in
      if v4 \<noteq> [] then v4 else chooseFour rest)"

fun chooseSix :: "IPNet list \<Rightarrow> net_IP" where
  "chooseSix [] = []"
| "chooseSix (inet # rest) =
     (let v4 = To4 (IPNet_IP inet) in
      if v4 = [] then IP_Mask (IPNet_IP inet) (IPNet_Mask inet) else chooseSix rest)"

text \<open>
  A \<open>net.Interface\<close>, as far as the program looks at it: its name and what its method
  \<open>Addrs()\<close> returns.
\<close>

record Interface =
  iface_Name :: string
  iface_Addrs :: "error + Addr list"

text \<open>
  The loop of \<open>main\<close> over the interfaces. The state is the pair of \<open>four\<close> and
  \<open>sixPrefix\<close>, both nil at the start.
\<close>

fun resolve_loop :: "string \<Rightarrow> string \<Rightarrow> Interface list \<Rightarrow> net_IP \<times> net_IP \<Rightarrow> net_IP \<times> net_IP" where
  "resolve_loop fourFrom sixFrom [] (four, sixPrefix) = (four, sixPrefix)"
| "resolve_loop fourFrom sixFrom (iface # rest) (four, sixPrefix) =
     (case iface_Addrs iface of
        Inl err \<Rightarrow> resolve_loop fourFrom sixFrom rest (four, sixPrefix)
      | Inr addrs \<Rightarrow>
          (let four' = (if iface_Name iface = fourFrom
                        then chooseFour (chooseUnicast addrs) else four);
               sixPrefix' = (if iface_Name iface = sixFrom
                             then chooseSix (chooseUnicast addrs) else sixPrefix)
           in resolve_loop fourFrom sixFrom rest (four', sixPrefix')))"

section \<open>The signed update (RFC 2136)\<close>

text \<open>
  \<open>dns.IsFqdn\<close> and \<open>dns.Fqdn\<close> of the DNS library: a name is fully qualified when it
  ends in a dot that is not escaped, that is, after an even number of backslashes.
\<close>

definition IsFqdn :: "string \<Rightarrow> bool" where
  "IsFqdn s \<longleftrightarrow>
     (if s = [] \<or> last s \<noteq> CHR ''.'' then False
      else let s1 = butlast s in
        if s1 = [] \<or> last s1 \<noteq> CHR 0x5C then True
        else (length (takeWhile (\<lambda>c. c = CHR 0x5C) (rev s1)) + 1) mod 2 \<noteq> 0)"

definition Fqdn :: "string \<Rightarrow> string" where
  "Fqdn s = (if IsFqdn s then s else s @ ''.'')"

definition joinDomain :: "string \<Rightarrow> string \<Rightarrow> string" where
  "joinDomain part fqdn =
     (if part = ''@'' then Fqdn fqdn else Fqdn (Fqdn part @ fqdn))"

record Config =
  Server :: string
  Zone :: string
  Key :: string
  TsigSecrets :: "(string \<times> string) list"
  Hosts :: "(string \<times> IP) list"
  Ttl :: "32 word"

text \<open>
  \<open>Hosts\<close> is a Go map. Its entries are listed in the order in which the \<open>range\<close> loop
  of this run visits them, which Go leaves unspecified.
\<close>

record RR_Header =
  hdr_Name :: string
  hdr_Rrtype :: "16 word"
  hdr_Class :: "16 word"
  hdr_Ttl :: "32 word"
  hdr_Rdlength :: "16 word"

definition TypeA :: "16 word" where "TypeA = 1"
definition TypeTXT :: "16 word" where "TypeTXT = 16"
definition TypeAAAA :: "16 word" where "TypeAAAA = 28"
definition TypeANY :: "16 word" where "TypeANY = 255"
definition ClassINET :: "16 word" where "ClassINET = 1"
definition ClassANY :: "16 word" where "ClassANY = 255"

datatype RR =
    dns_ANY RR_Header
  | dns_A RR_Header net_IP
  | dns_AAAA RR_Header net_IP
  | dns_TXT RR_Header "string list"

definition HmacMD5 :: string where
  "HmacMD5 = ''hmac-md5.sig-alg.reg.int.''"

text \<open>What \<open>SetTsig\<close> records for the signature of a message.\<close>

record TSIG =
  tsig_Name :: string
  tsig_Algorithm :: string
  tsig_Fudge :: "16 word"
  tsig_TimeSigned :: "64 word"

text \<open>
  A \<open>dns.Msg\<close>, as far as the program fills it: the zone of \<open>SetUpdate\<close>, the section
  \<open>Ns\<close> and the requests of \<open>SetTsig\<close>.
\<close>

record Msg =
  msg_UpdateZone :: "string option"
  msg_Ns :: "RR list"
  msg_Tsig :: "TSIG list"

definition SetUpdate :: "Msg \<Rightarrow> string \<Rightarrow> Msg" where
  "SetUpdate m z = m\<lparr>msg_UpdateZone := Some z\<rparr>"

definition SetTsig :: "Msg \<Rightarrow> string \<Rightarrow> string \<Rightarrow> 16 word \<Rightarrow> 64 word \<Rightarrow> Msg" where
  "SetTsig m z algo fudge timesigned =
     m\<lparr>msg_Tsig := msg_Tsig m @
        [\<lparr>tsig_Name = z, tsig_Algorithm = algo, tsig_Fudge = fudge,
          tsig_TimeSigned = timesigned\<rparr>]\<rparr>"

text \<open>
  What a run does to the outside, in order: the lines it logs, the exchange with the
  server, and \<open>logger.Fatal\<close>, which logs and ends the process with status 1.
\<close>

datatype event =
    Printf_Updating bool string net_IP
      \<comment> \<open>\<open>logger.Printf("Updating %s to (IPv4) %v", \<dots>)\<close>; \<open>False\<close> for \<open>(IPv6)\<close>\<close>
  | Exchange Msg string
  | Print_reply "Msg option"
  | Fatal string error

datatype status = Returned | Exited | Panicked panic

text \<open>
  The loop of \<open>main\<close> over the hosts: \<open>insertions\<close> and the log grow; a panic of
  \<open>ApplyIPToMask\<close> ends the loop and the run.
\<close>

fun insertions_loop ::
  "Config \<Rightarrow> net_IP \<Rightarrow> net_IP \<Rightarrow> (string \<times> IP) list \<Rightarrow> RR list \<Rightarrow> event list
     \<Rightarrow> event list \<times> (panic + RR list)" where
  "insertions_loop config four sixPrefix [] insertions log = (log, Inr insertions)"
| "insertions_loop config four sixPrefix ((host, ip) # rest) insertions log =
     (let fqdn = joinDomain host (Zone config);
          insertions1 = insertions @
            [dns_ANY \<lparr>hdr_Name = fqdn, hdr_Rrtype = TypeANY, hdr_Class = ClassANY,
                      hdr_Ttl = 0, hdr_Rdlength = 0\<rparr>]
      in if Is4 ip then
           (case ApplyIPToMask ip four of
              Inl p \<Rightarrow> (log, Inl p)
            | Inr finalIp \<Rightarrow>
                insertions_loop config four sixPrefix rest
                  (insertions1 @
                     [dns_A \<lparr>hdr_Name = fqdn, hdr_Rrtype = TypeA, hdr_Class = ClassINET,
                              hdr_Ttl = Ttl config, hdr_Rdlength = 0\<rparr> finalIp])
                  (log @ [Printf_Updating True fqdn finalIp]))
         else
           (case ApplyIPToMask ip sixPrefix of
              Inl p \<Rightarrow> (log, Inl p)
            | Inr finalIp \<Rightarrow>
                insertions_loop config four sixPrefix rest
                  (insertions1 @
                     [dns_AAAA \<lparr>hdr_Name = fqdn, hdr_Rrtype = TypeAAAA, hdr_Class = ClassINET,
                                 hdr_Ttl = Ttl config, hdr_Rdlength = 0\<rparr> finalIp])
                  (log @ [Printf_Updating False fqdn finalIp])))"

text \<open>
  The rest of \<open>main\<close> after the resolver. \<open>now_string\<close> is \<open>time.Now().String()\<close> and
  \<open>now_unix\<close> is \<open>time.Now().UTC().Unix()\<close> at their calls; \<open>exchange\<close> is what
  \<open>c.Exchange\<close> returns for a message and a server: the reply, if any, and the error,
  if any.
\<close>

definition build_update :: "Config \<Rightarrow> RR list \<Rightarrow> string \<Rightarrow> 64 word \<Rightarrow> Msg" where
  "build_update config insertions now_string now_unix =
     (let insertions' = insertions @
            [dns_TXT \<lparr>hdr_Name = Fqdn (Zone config), hdr_Rrtype = TypeTXT,
                      hdr_Class = ClassINET, hdr_Ttl = Ttl config, hdr_Rdlength = 0\<rparr>
               [now_string]];
          updateMsg = \<lparr>msg_UpdateZone = None, msg_Ns = [], msg_Tsig = []\<rparr>;
          updateMsg = SetUpdate updateMsg (Fqdn (Zone config));
          updateMsg = updateMsg\<lparr>msg_Ns := insertions'\<rparr>
      in SetTsig updateMsg (Key config) HmacMD5 300 now_unix)"

definition main_update ::
  "Config \<Rightarrow> net_IP \<Rightarrow> net_IP \<Rightarrow> string \<Rightarrow> 64 word
     \<Rightarrow> (Msg \<Rightarrow> string \<Rightarrow> Msg option \<times> error option) \<Rightarrow> event list \<times> status" where
  "main_update config four sixPrefix now_string now_unix exchange =
     (case insertions_loop config four sixPrefix (Hosts config) [] [] of
        (log, Inl p) \<Rightarrow> (log, Panicked p)
      | (log, Inr insertions) \<Rightarrow>
          (let updateMsg = build_update config insertions now_string now_unix;
               (reply, err) = exchange updateMsg (Server config);
               log1 = log @ [Exchange updateMsg (Server config)]
           in case err of
                Some e \<Rightarrow>
                  (log1 @ [Print_reply reply, Fatal ''Failed to update DNS sever:'' e], Exited)
              | None \<Rightarrow> (log1, Returned)))"

text \<open>
  \<open>main\<close> from the call of \<open>net.Interfaces()\<close> on; \<open>interfaces\<close> is what that call
  returns.
\<close>

definition main ::
  "Config \<Rightarrow> string \<Rightarrow> string \<Rightarrow> (error + Interface list) \<Rightarrow> string \<Rightarrow> 64 word
     \<Rightarrow> (Msg \<Rightarrow> string \<Rightarrow> Msg option \<times> error option) \<Rightarrow> event list \<times> status" where
  "main config fourFrom sixFrom interfaces now_string now_unix exchange =
     (case interfaces of
        Inl err \<Rightarrow> ([Fatal ''Failed to get net interfaces:'' err], Exited)
      | Inr ifs \<Rightarrow>
          (let (four, sixPrefix) = resolve_loop fourFrom sixFrom ifs ([], [])
           in main_update config four sixPrefix now_string now_unix exchange))"

section \<open>The provider update (Azure DNS)\<close>

text \<open>
  The second version of the program replaces the signed update by one call of the
  provider's \<open>CreateOrUpdate\<close> for each host. A request is modelled by the arguments of
  that call; the address is the \<open>net.IP\<close> that the call renders with \<open>String()\<close>.
\<close>

datatype RecordType = RecordA | RecordAAAA

record RecordSet_request =
  req_resourceGroup :: string
  req_zone :: string
  req_host :: string
  req_recordType :: RecordType
  req_TTL :: "64 word"
  req_address :: net_IP

record AzureConfig =
  ClientID :: string
  ClientSecret :: string
  TenantID :: string
  SubscriptionID :: string
  ResourceGroup :: string

record Config_azure =
  azure :: AzureConfig
  az_Zone :: string
  az_Hosts :: "(string \<times> IP) list"
  az_Ttl :: "32 word"

record azureDnsUpdater =
  upd_resourceGroup :: string
  upd_zone :: string

definition newAzureDnsUpdater :: "string \<Rightarrow> string \<Rightarrow> azureDnsUpdater" where
  "newAzureDnsUpdater resourceGroup zone =
     \<lparr>upd_resourceGroup = resourceGroup, upd_zone = zone\<rparr>"

text \<open>The request that the goroutine of \<open>SetARecord\<close> (of \<open>SetAAAARecord\<close>) sends.\<close>

definition SetARecord :: "azureDnsUpdater \<Rightarrow> string \<Rightarrow> net_IP \<Rightarrow> RecordSet_request" where
  "SetARecord a host ip =
     \<lparr>req_resourceGroup = upd_resourceGroup a, req_zone = upd_zone a, req_host = host,
      req_recordType = RecordA, req_TTL = 300, req_address = ip\<rparr>"

definition SetAAAARecord :: "azureDnsUpdater \<Rightarrow> string \<Rightarrow> net_IP \<Rightarrow> RecordSet_request" where
  "SetAAAARecord a host ip =
     \<lparr>req_resourceGroup = upd_resourceGroup a, req_zone = upd_zone a, req_host = host,
      req_recordType = RecordAAAA, req_TTL = 300, req_address = ip\<rparr>"

text \<open>
  The loop of the second \<open>main\<close> over the hosts: the requests whose goroutines it has
  started, in the order of their start, or the panic of \<open>ApplyIPToMask\<close>.
\<close>

fun azure_loop ::
  "azureDnsUpdater \<Rightarrow> net_IP \<Rightarrow> net_IP \<Rightarrow> (string \<times> IP) list \<Rightarrow> RecordSet_request list
     \<Rightarrow> RecordSet_request list \<times> panic option" where
  "azure_loop updater four sixPrefix [] started = (started, None)"
| "azure_loop updater four sixPrefix ((host, ip) # rest) started =
     (if Is4 ip then
        (case ApplyIPToMask ip four of
           Inl p \<Rightarrow> (started, Some p)
         | Inr finalIp \<Rightarrow>
             azure_loop updater four sixPrefix rest (started @ [SetARecord updater host finalIp]))
      else
        (case ApplyIPToMask ip sixPrefix of
           Inl p \<Rightarrow> (started, Some p)
         | Inr finalIp \<Rightarrow>
             azure_loop updater four sixPrefix rest (started @ [SetAAAARecord updater host finalIp])))"

definition main_azure ::
  "Config_azure \<Rightarrow> net_IP \<Rightarrow> net_IP \<Rightarrow> RecordSet_request list \<times> panic option" where
  "main_azure config four sixPrefix =
     (let updater = newAzureDnsUpdater (ResourceGroup (azure config)) (az_Zone config)
      in azure_loop updater four sixPrefix (az_Hosts config) [])"

section \<open>The merge rule as the specification words it\<close>

text \<open>
  The 16-byte form of a mask: Go takes a 16-byte mask for a 4-byte one when its first
  twelve bytes are \<open>0xff\<close> (see \<open>IP_Mask\<close>), so a 4-byte mask is extended by them.
\<close>

definition IPMask_To16 :: "net_IPMask \<Rightarrow> net_IPMask" where
  "IPMask_To16 m = (if length m = IPv4len then replicate 12 0xff @ m else m)"

text \<open>
  The rule of the specification, \<open>merged = (discovered & ~mask) | baseBits\<close> on 16-byte
  forms. It is stated here to be compared with \<open>ApplyIPToMask\<close>.
\<close>

definition spec_merge :: "net_IP \<Rightarrow> net_IPMask \<Rightarrow> net_IP \<Rightarrow> net_IP" where
  "spec_merge discovered m baseBits =
     map2 (\<lambda>x b. x OR b)
       (map2 (\<lambda>d k. d AND NOT k) (To16 discovered) (IPMask_To16 m)) (To16 baseBits)"

text \<open>What \<open>ApplyIPToMask\<close> computes: \<open>(discovered & mask) | baseBits\<close> on 16-byte forms.\<close>

definition code_merge :: "net_IP \<Rightarrow> net_IPMask \<Rightarrow> net_IP \<Rightarrow> net_IP" where
  "code_merge discovered m baseBits =
     map2 (\<lambda>x b. x OR b)
       (map2 (\<lambda>d k. d AND k) (To16 discovered) (IPMask_To16 m)) (To16 baseBits)"

section \<open>Well-formed values\<close>

text \<open>An address of \<open>netip\<close> has four or sixteen bytes.\<close>

definition wf_Addr :: "netip_Addr \<Rightarrow> bool" where
  "wf_Addr a \<longleftrightarrow> (case a of Addr4 b \<Rightarrow> length b = 4 | Addr6 b z \<Rightarrow> length b = 16)"

text \<open>
  The zero value of the struct \<open>IP\<close>: the receiver that the YAML decoder hands to
  \<open>UnmarshalYAML\<close> for a new map entry.
\<close>

definition zero_IP :: IP where
  "zero_IP = \<lparr>IP_ip = [], IP_mask = []\<rparr>"

section \<open>An example run\<close>

text \<open>
  The configuration and the interfaces of the example of the program's documentation:
  the zone's own name follows the IPv4 address of the interface, \<open>host1\<close> takes the first
  64 bits of the IPv6 address of the interface and the last 64 bits of its entry.
\<close>

definition example_host4 :: IP where
  "example_host4 = \<lparr>IP_ip = IPv4 0 0 0 0, IP_mask = [255, 255, 255, 255]\<rparr>"

definition example_host6 :: IP where
  "example_host6 =
     \<lparr>IP_ip = [0, 0, 0, 0, 0, 0, 0, 0, 0x12, 0x34, 0x12, 0x34, 0x12, 0x34, 0x12, 0x34],
      IP_mask = [255, 255, 255, 255, 255, 255, 255, 255, 0, 0, 0, 0, 0, 0, 0, 0]\<rparr>"

definition example_config :: Config where
  "example_config =
     \<lparr>Server = ''192.0.2.53:53'', Zone = ''fully.qualified.update.zone.'',
      Key = ''update.key.'', TsigSecrets = [(''update.key.'', ''update.secret.'')],
      Hosts = [(''@'', example_host4), (''host1'', example_host6)], Ttl = 300\<rparr>"

definition example_four :: net_IP where
  "example_four = [198, 100, 123, 139]"

definition example_six :: net_IP where
  "example_six = [0x20, 0x01, 0x04, 0x70, 0x1f, 0x0e, 0x08, 0x3f, 0, 0, 0, 0, 0, 0, 0, 0]"

definition example_exchange_fails :: "Msg \<Rightarrow> string \<Rightarrow> Msg option \<times> error option" where
  "example_exchange_fails m server = (None, Some (OSError ''i/o timeout''))"

definition example_log :: "event list" where
  "example_log =
     [Printf_Updating True (joinDomain ''@'' (Zone example_config)) (IPv4 198 100 123 139),
      Printf_Updating False (joinDomain ''host1'' (Zone example_config))
        [0x20, 0x01, 0x04, 0x70, 0x1f, 0x0e, 0x08, 0x3f,
         0x12, 0x34, 0x12, 0x34, 0x12, 0x34, 0x12, 0x34]]"

definition example_insertions :: "RR list" where
  "example_insertions =
     [dns_ANY \<lparr>hdr_Name = joinDomain ''@'' (Zone example_config), hdr_Rrtype = TypeANY,
               hdr_Class = ClassANY, hdr_Ttl = 0, hdr_Rdlength = 0\<rparr>,
      dns_A \<lparr>hdr_Name = joinDomain ''@'' (Zone example_config), hdr_Rrtype = TypeA,
             hdr_Class = ClassINET, hdr_Ttl = 300, hdr_Rdlength = 0\<rparr>
        (IPv4 198 100 123 139),
      dns_ANY \<lparr>hdr_Name = joinDomain ''host1'' (Zone example_config), hdr_Rrtype = TypeANY,
               hdr_Class = ClassANY, hdr_Ttl = 0, hdr_Rdlength = 0\<rparr>,
      dns_AAAA \<lparr>hdr_Name = joinDomain ''host1'' (Zone example_config), hdr_Rrtype = TypeAAAA,
                hdr_Class = ClassINET, hdr_Ttl = 300, hdr_Rdlength = 0\<rparr>
        [0x20, 0x01, 0x04, 0x70, 0x1f, 0x0e, 0x08, 0x3f,
         0x12, 0x34, 0x12, 0x34, 0x12, 0x34, 0x12, 0x34]]"

definition example_config_azure :: Config_azure where
  "example_config_azure =
     \<lparr>azure = \<lparr>ClientID = ''client'', ClientSecret = ''secret'', TenantID = ''tenant'',
                SubscriptionID = ''subscription'', ResourceGroup = ''dns-rg''\<rparr>,
      az_Zone = ''fully.qualified.update.zone'',
      az_Hosts = [(''@'', example_host4), (''host1'', example_host6)], az_Ttl = 600\<rparr>"

definition example_addrs :: "Addr list" where
  "example_addrs =
     [OtherAddr ''ip+net'',
      IPNetAddr \<lparr>IPNet_IP = IPv4 127 0 0 1, IPNet_Mask = [255, 0, 0, 0]\<rparr>,
      IPNetAddr \<lparr>IPNet_IP = [0xfe, 0x80, 0, 0, 0, 0, 0, 0, 0, 0, 0, 0, 0, 0, 0, 1],
                 IPNet_Mask = [255, 255, 255, 255, 255, 255, 255, 255, 0, 0, 0, 0, 0, 0, 0, 0]\<rparr>,
      IPNetAddr \<lparr>IPNet_IP = IPv4 198 100 123 139, IPNet_Mask = [255, 255, 255, 0]\<rparr>,
      IPNetAddr \<lparr>IPNet_IP = [0x20, 0x01, 0x04, 0x70, 0x1f, 0x0e, 0x08, 0x3f, 0, 0, 0, 0, 0, 0, 0, 2],
                 IPNet_Mask = [255, 255, 255, 255, 255, 255, 255, 255, 0, 0, 0, 0, 0, 0, 0, 0]\<rparr>,
      IPNetAddr \<lparr>IPNet_IP = IPv4 203 0 113 5, IPNet_Mask = [255, 255, 255, 0]\<rparr>]"

definition example_iface_error :: Interface where
  "example_iface_error =
     \<lparr>iface_Name = ''eth0'', iface_Addrs = Inl (OSError ''no such network interface'')\<rparr>"

definition example_iface_empty :: Interface where
  "example_iface_empty = \<lparr>iface_Name = ''br0'', iface_Addrs = Inr []\<rparr>"

section \<open>What the parser returns\<close>

lemma length_parseIPv4Fields_loop:
  "parseIPv4Fields_loop n s i prev val pos digLen fs = Some r \<Longrightarrow> length r = length fs"
  by (induction n s i prev val pos digLen fs rule: parseIPv4Fields_loop.induct)
     (auto simp: Let_def split: if_splits)

lemma length_parseIPv4Fields: "parseIPv4Fields s = Some r \<Longrightarrow> length r = 4"
  unfolding parseIPv4Fields_def by (drule length_parseIPv4Fields_loop) simp

lemma length_parseIPv6_finish:
  "parseIPv6_finish s i ellipsis ip = Some r \<Longrightarrow> length ip = 16 \<Longrightarrow> i \<le> 16 \<Longrightarrow>
   (\<forall>e. ellipsis = Some e \<longrightarrow> e \<le> i) \<Longrightarrow> length r = 16"
  by (auto simp: parseIPv6_finish_def split: if_splits option.splits)

lemma parseIPv6_loop_cases:
  assumes res: "parseIPv6_loop s i ell ip = Some r" and i16: "i < 16"
  obtains
    (embedded) f where "parseIPv4Fields s = Some f" and "i + 4 \<le> 16"
      and "parseIPv6_finish [] (i + 4) ell (take i ip @ f @ drop (i + 4) ip) = Some r"
  | (finish) ip' s' ell' where "length ip' = length ip" and "ell' = ell \<or> ell' = Some (i + 2)"
      and "parseIPv6_finish s' (i + 2) ell' ip' = Some r"
  | (again) ip' s' ell' where "length ip' = length ip" and "ell' = ell \<or> ell' = Some (i + 2)"
      and "parseIPv6_loop s' (i + 2) ell' ip' = Some r"
proof -
  obtain off acc where hg: "hex_group s 0 0 = Some (off, acc)"
    using res i16 by (subst (asm) parseIPv6_loop.simps) (cases "hex_group s 0 0"; simp; fastforce)
  define ip' where "ip' = ip[i := of_nat (acc div 256), Suc i := of_nat acc]"
  define s' where "s' = drop off s"
  have len: "length ip' = length ip" by (simp add: ip'_def)
  have step: "Some r =
     (if off = 0 then None
      else if off < length s \<and> s ! off = CHR ''.'' then
        (if ell = None \<and> i \<noteq> 12 then None
         else if i + 4 > 16 then None
         else case parseIPv4Fields s of
           None \<Rightarrow> None
         | Some f \<Rightarrow> parseIPv6_finish [] (i + 4) ell (take i ip @ f @ drop (i + 4) ip))
      else
        (if s' = [] then parseIPv6_finish s' (i + 2) ell ip'
         else if hd s' \<noteq> CHR '':'' then None
         else if length s' = 1 then None
         else if hd (tl s') = CHR '':'' then
                (if ell \<noteq> None then None
                 else if tl (tl s') = [] then parseIPv6_finish [] (i + 2) (Some (i + 2)) ip'
                 else parseIPv6_loop (tl (tl s')) (i + 2) (Some (i + 2)) ip')
              else parseIPv6_loop (tl s') (i + 2) ell ip'))"
    using i16 by (subst res [symmetric], subst parseIPv6_loop.simps) (simp add: hg Let_def ip'_def s'_def)
  have off0: "off \<noteq> 0"
  proof
    assume "off = 0"
    with step show False by simp
  qed
  show thesis
  proof (cases "off < length s \<and> s ! off = CHR ''.''")
    case True
    with step off0 have "Some r =
        (if ell = None \<and> i \<noteq> 12 then None
         else if i + 4 > 16 then None
         else case parseIPv4Fields s of
           None \<Rightarrow> None
         | Some f \<Rightarrow> parseIPv6_finish [] (i + 4) ell (take i ip @ f @ drop (i + 4) ip))"
      by simp
    then obtain f where "parseIPv4Fields s = Some f" "i + 4 \<le> 16"
      "parseIPv6_finish [] (i + 4) ell (take i ip @ f @ drop (i + 4) ip) = Some r"
      by (cases "parseIPv4Fields s") (auto split: if_splits)
    then show ?thesis by (rule embedded)
  next
    case False
    with step off0 have step2: "Some r =
        (if s' = [] then parseIPv6_finish s' (i + 2) ell ip'
         else if hd s' \<noteq> CHR '':'' then None
         else if length s' = 1 then None
         else if hd (tl s') = CHR '':'' then
                (if ell \<noteq> None then None
                 else if tl (tl s') = [] then parseIPv6_finish [] (i + 2) (Some (i + 2)) ip'
                 else parseIPv6_loop (tl (tl s')) (i + 2) (Some (i + 2)) ip')
              else parseIPv6_loop (tl s') (i + 2) ell ip')"
      by simp
    show ?thesis
    proof (cases "s' = []")
      case True
      with step2 have "parseIPv6_finish s' (i + 2) ell ip' = Some r" by simp
      with len show ?thesis by (intro finish[of ip' ell s']) auto
    next
      case ne: False
      show ?thesis
      proof (cases "hd (tl s') = CHR '':''")
        case True
        show ?thesis
        proof (cases "tl (tl s') = []")
          case True
          with step2 ne \<open>hd (tl s') = CHR '':''\<close>
          have "parseIPv6_finish [] (i + 2) (Some (i + 2)) ip' = Some r"
            by (simp split: if_splits)
          with len show ?thesis by (intro finish[of ip' "Some (i + 2)" "[]"]) auto
        next
          case False
          with step2 ne \<open>hd (tl s') = CHR '':''\<close>
          have "parseIPv6_loop (tl (tl s')) (i + 2) (Some (i + 2)) ip' = Some r"
            by (simp split: if_splits)
          with len show ?thesis by (intro again[of ip' "Some (i + 2)" "tl (tl s')"]) auto
        qed
      next
        case False
        with step2 ne have "parseIPv6_loop (tl s') (i + 2) ell ip' = Some r"
          by (simp split: if_splits)
        with len show ?thesis by (intro again[of ip' ell "tl s'"]) auto
      qed
    qed
  qed
qed

lemma length_parseIPv6_loop:
  "parseIPv6_loop s i ell ip = Some r \<Longrightarrow> length ip = 16 \<Longrightarrow> i \<le> 16 \<Longrightarrow> even i \<Longrightarrow>
   (\<forall>e. ell = Some e \<longrightarrow> e \<le> i) \<Longrightarrow> length r = 16"
proof (induction "16 - i" arbitrary: s i ell ip rule: less_induct)
  case less
  show ?case
  proof (cases "i < 16")
    case False
    with less.prems show ?thesis
      by (subst (asm) parseIPv6_loop.simps) (auto dest!: length_parseIPv6_finish)
  next
    case True
    with \<open>even i\<close> have i14: "i + 2 \<le> 16" by presburger
    from less.prems(1) True show ?thesis
    proof (cases rule: parseIPv6_loop_cases)
      case (embedded f)
      from embedded(3) show ?thesis
      proof (rule length_parseIPv6_finish)
        show "length (take i ip @ f @ drop (i + 4) ip) = 16"
          using embedded(1,2) less.prems(2) by (simp add: length_parseIPv4Fields)
      qed (use embedded(2) less.prems(5) in auto)
    next
      case (finish ip' s' ell')
      from finish(3) show ?thesis
        by (rule length_parseIPv6_finish) (use finish(1,2) less.prems i14 in auto)
    next
      case (again ip' s' ell')
      have "16 - (i + 2) < 16 - i" using True by simp
      then show ?thesis
      proof (rule less.hyps[OF _ again(3)])
        show "length ip' = 16" using again(1) less.prems(2) by simp
        show "i + 2 \<le> 16" by (rule i14)
        show "even (i + 2)" using \<open>even i\<close> by simp
        show "\<forall>e. ell' = Some e \<longrightarrow> e \<le> i + 2" using again(2) less.prems(5) by auto
      qed
    qed
  qed
qed


lemma length_zero16: "length zero16 = 16"
  by (simp add: zero16_def)

lemma parseIPv6_loop_length_None: "parseIPv6_loop s 0 None zero16 = Some r \<Longrightarrow> length r = 16"
  by (erule length_parseIPv6_loop; simp add: length_zero16)

lemma parseIPv6_loop_length_Some: "parseIPv6_loop s 0 (Some 0) zero16 = Some r \<Longrightarrow> length r = 16"
  by (erule length_parseIPv6_loop; simp add: length_zero16)

lemma parseIPv6_body_shape:
  assumes "(if length s \<ge> 2 \<and> s ! 0 = CHR '':'' \<and> s ! 1 = CHR '':'' then
           (if drop 2 s = [] then Some (Addr6 zero16 zone, zone)
            else map_option (\<lambda>ip. (Addr6 ip zone, zone))
                   (parseIPv6_loop (drop 2 s) 0 (Some 0) zero16))
         else map_option (\<lambda>ip. (Addr6 ip zone, zone))
                (parseIPv6_loop s 0 None zero16)) = Some (a, z)"
  shows "\<exists>b. a = Addr6 b z \<and> length b = 16"
proof -
  consider "Some (Addr6 zero16 zone, zone) = Some (a, z)"
    | "map_option (\<lambda>ip. (Addr6 ip zone, zone))
                   (parseIPv6_loop (drop 2 s) 0 (Some 0) zero16) = Some (a, z)"
    | "map_option (\<lambda>ip. (Addr6 ip zone, zone))
                (parseIPv6_loop s 0 None zero16) = Some (a, z)"
    using assms by (auto split: if_splits)
  then show ?thesis
  proof cases
    case 1
    then show ?thesis by (auto simp: length_zero16)
  next
    case 2
    then show ?thesis by (auto dest: parseIPv6_loop_length_Some)
  next
    case 3
    then show ?thesis by (auto dest: parseIPv6_loop_length_None)
  qed
qed

lemma parseIPv6_shape:
  assumes "parseIPv6 inp = Some (a, z)"
  shows "\<exists>b. a = Addr6 b z \<and> length b = 16"
proof (cases "IndexByteString inp (CHR ''%'')")
  case None
  with assms show ?thesis
    unfolding parseIPv6_def by (intro parseIPv6_body_shape[of inp "[]"]) simp
next
  case (Some k)
  with assms have "drop (Suc k) inp \<noteq> []"
    unfolding parseIPv6_def by (auto split: if_splits)
  with Some assms show ?thesis
    unfolding parseIPv6_def by (intro parseIPv6_body_shape[of "take k inp" "drop (Suc k) inp"]) simp
qed

lemma parseIPv4_shape:
  "parseIPv4 s = Some (a, z) \<Longrightarrow> \<exists>b. a = Addr4 b \<and> length b = 4 \<and> z = []"
  by (auto simp: parseIPv4_def dest: length_parseIPv4Fields)

lemma ParseAddr_scan_shape:
  "ParseAddr_scan s cs = Some (a, z) \<Longrightarrow> wf_Addr a"
  by (induction cs) (auto simp: wf_Addr_def split: if_splits dest: parseIPv4_shape parseIPv6_shape)

lemma ParseAddr_shape: "ParseAddr s = Some (a, z) \<Longrightarrow> wf_Addr a"
  unfolding ParseAddr_def by (rule ParseAddr_scan_shape)

lemma ParseCIDR_Inr:
  assumes "ParseCIDR s = Inr (ip, ipnet)"
  shows "\<exists>a n. wf_Addr a \<and> n \<le> BitLen a \<and> ip = As16 a \<and> IPNet_Mask ipnet = CIDRMask n (BitLen a)"
proof -
  from assms obtain i where i: "IndexByteString s (CHR ''/'') = Some i"
    unfolding ParseCIDR_def by (cases "IndexByteString s (CHR ''/'')") auto
  from assms i obtain a z where a: "ParseAddr (take i s) = Some (a, z)"
    unfolding ParseCIDR_def by (cases "ParseAddr (take i s)") (auto simp: Let_def)
  obtain n j ok where d: "dtoi (drop (Suc i) s) = (n, j, ok)"
    by (cases "dtoi (drop (Suc i) s)") auto
  from assms i a d have "n \<le> BitLen a \<and> ip = As16 a \<and> IPNet_Mask ipnet = CIDRMask n (BitLen a)"
    unfolding ParseCIDR_def by (auto simp add: Let_def split: if_splits)
  moreover from a have "wf_Addr a" by (rule ParseAddr_shape)
  ultimately show ?thesis by blast
qed

lemma length_CIDRMask_loop: "length (CIDRMask_loop l n) = l"
  by (induction l n rule: CIDRMask_loop.induct) auto

lemma length_CIDRMask:
  "n \<le> bits \<Longrightarrow> bits = 32 \<or> bits = 128 \<Longrightarrow> length (CIDRMask n bits) = bits div 8"
  by (auto simp: CIDRMask_def IPv4len_def IPv6len_def length_CIDRMask_loop)

section \<open>Masking and the loop of \<open>ApplyIPToMask\<close>\<close>

lemma allFF_replicate: "allFF xs \<Longrightarrow> xs = replicate (length xs) 0xff"
  unfolding allFF_def by (induction xs) auto

lemma list4: "length (d::'a list) = 4 \<Longrightarrow> [d ! 0, d ! 1, d ! 2, d ! 3] = d"
  by (auto simp: numeral_eq_Suc length_Suc_conv)

lemma To16_4: "length d = 4 \<Longrightarrow> To16 d = v4InV6Prefix @ d"
  using list4[of d] by (simp add: To16_def IPv4_def IPv4len_def)

lemma To16_16: "length d = 16 \<Longrightarrow> To16 d = d"
  by (simp add: To16_def IPv4len_def IPv6len_def)

lemma To16_nil: "To16 [] = []"
  by (simp add: To16_def IPv4len_def IPv6len_def)

lemma and_ff_prefix: "map2 (\<lambda>b m. b AND m) v4InV6Prefix (replicate 12 0xff) = v4InV6Prefix"
  by (simp add: v4InV6Prefix_def numeral_eq_Suc)

lemma length_v4InV6Prefix: "length v4InV6Prefix = 12"
  by (simp add: v4InV6Prefix_def)

lemma To16_IP_Mask:
  assumes m: "length m = 4 \<or> length m = 16" and ne: "IP_Mask d m \<noteq> []"
  shows "To16 (IP_Mask d m) = map2 (\<lambda>b k. b AND k) (To16 d) (IPMask_To16 m)"
proof -
  consider (a) "length m = 4" "length d = 4"
    | (b) "length m = 4" "length d = 16" "take 12 d = v4InV6Prefix"
    | (c) "length m = 16" "length d = 4" "allFF (take 12 m)"
    | (d) "length m = 16" "length d = 16"
    using m ne by (auto simp: IP_Mask_def Let_def IPv4len_def IPv6len_def split: if_splits)
  then show ?thesis
  proof cases
    case a
    then show ?thesis
      by (simp add: IP_Mask_def IPv4len_def IPv6len_def To16_4 IPMask_To16_def and_ff_prefix length_v4InV6Prefix)
  next
    case b
    have "d = v4InV6Prefix @ drop 12 d" using b(3) append_take_drop_id[of 12 d] by simp
    then have "map2 (\<lambda>b k. b AND k) d (replicate 12 0xff @ m) = v4InV6Prefix @ map2 (\<lambda>b k. b AND k) (drop 12 d) m"
      by (metis (no_types, lifting) and_ff_prefix length_replicate length_v4InV6Prefix map_append zip_append)
    with b show ?thesis
      by (simp add: IP_Mask_def IPv4len_def IPv6len_def To16_4 To16_16 IPMask_To16_def)
  next
    case c
    have "m = replicate 12 0xff @ drop 12 m"
      using allFF_replicate[OF c(3)] c(1) append_take_drop_id[of 12 m] by simp
    then have "map2 (\<lambda>b k. b AND k) (v4InV6Prefix @ d) m = v4InV6Prefix @ map2 (\<lambda>b k. b AND k) d (drop 12 m)"
      by (metis (no_types, lifting) and_ff_prefix length_replicate length_v4InV6Prefix map_append zip_append)
    with c show ?thesis
      by (simp add: IP_Mask_def IPv4len_def IPv6len_def To16_4 IPMask_To16_def)
  next
    case d
    then show ?thesis
      by (simp add: IP_Mask_def IPv4len_def IPv6len_def To16_16 IPMask_To16_def)
  qed
qed

lemma or_loop_take_drop:
  "idx + length our \<le> length new \<Longrightarrow>
   or_loop new idx our =
     Inr (take idx new @ map2 (\<lambda>x b. x OR b) (take (length our) (drop idx new)) our
          @ drop (idx + length our) new)"
proof (induction our arbitrary: new idx)
  case Nil
  then show ?case by simp
next
  case (Cons val rest)
  then have lt: "idx < length new" by simp
  have "or_loop new idx (val # rest) = or_loop (new[idx := new ! idx OR val]) (Suc idx) rest"
    using lt by simp
  also have "\<dots> = Inr (take (Suc idx) (new[idx := new ! idx OR val])
        @ map2 (\<lambda>x b. x OR b) (take (length rest) (drop (Suc idx) (new[idx := new ! idx OR val]))) rest
        @ drop (Suc idx + length rest) (new[idx := new ! idx OR val]))"
    using Cons.prems by (intro Cons.IH) simp
  also have "take (Suc idx) (new[idx := new ! idx OR val]) = take idx new @ [new ! idx OR val]"
    using lt by (simp add: take_Suc_conv_app_nth)
  also have "drop (Suc idx) (new[idx := new ! idx OR val]) = drop (Suc idx) new"
    by simp
  also have "drop (Suc idx + length rest) (new[idx := new ! idx OR val]) = drop (idx + length (val # rest)) new"
    by simp
  finally show ?case
    using lt by (simp add: Cons_nth_drop_Suc[symmetric])
qed

lemma or_loop_same_length:
  "length our = length new \<Longrightarrow> or_loop new 0 our = Inr (map2 (\<lambda>x b. x OR b) new our)"
  by (simp add: or_loop_take_drop)

lemma or_loop_nil: "our \<noteq> [] \<Longrightarrow> or_loop [] 0 our = Inl (IndexOutOfRange 0 0)"
  by (cases our) auto

section \<open>The merge of a parsed partial address\<close>

lemma UnmarshalYAML_None:
  assumes "UnmarshalYAML i u = (p, None)"
  shows "\<exists>a n. wf_Addr a \<and> n \<le> BitLen a \<and> IP_ip p = As16 a \<and> IP_mask p = CIDRMask n (BitLen a)"
proof -
  define raw where "raw = (case u of Inl e \<Rightarrow> [] | Inr text \<Rightarrow> text)"
  from assms obtain ip ipnet where pc: "ParseCIDR raw = Inr (ip, ipnet)"
    and p: "p = i\<lparr>IP_ip := ip, IP_mask := IPNet_Mask ipnet\<rparr>"
    unfolding UnmarshalYAML_def raw_def [symmetric]
    by (cases "ParseCIDR raw") (auto simp: Let_def split: prod.splits)
  from ParseCIDR_Inr[OF pc] p show ?thesis by auto
qed

lemma length_As16: "wf_Addr a \<Longrightarrow> length (As16 a) = 16"
  by (cases a) (auto simp: wf_Addr_def length_v4InV6Prefix)

lemma parsed_lengths:
  assumes "UnmarshalYAML i u = (p, None)"
  shows "length (IP_ip p) = 16" and "length (IP_mask p) = 4 \<or> length (IP_mask p) = 16"
proof -
  from UnmarshalYAML_None[OF assms] obtain a n where
    a: "wf_Addr a" "n \<le> BitLen a" "IP_ip p = As16 a" "IP_mask p = CIDRMask n (BitLen a)" by blast
  show "length (IP_ip p) = 16" using a by (simp add: length_As16)
  show "length (IP_mask p) = 4 \<or> length (IP_mask p) = 16"
    using a(2,4) by (cases a) (simp_all add: length_CIDRMask)
qed

lemma length_IP_Mask:
  "length m = 4 \<or> length m = 16 \<Longrightarrow> IP_Mask d m \<noteq> [] \<Longrightarrow>
   length (IP_Mask d m) = 4 \<or> length (IP_Mask d m) = 16"
  by (auto simp: IP_Mask_def Let_def IPv4len_def IPv6len_def split: if_splits)

lemma length_To16: "length d = 4 \<or> length d = 16 \<Longrightarrow> length (To16 d) = 16"
  by (auto simp: To16_4 To16_16 length_v4InV6Prefix)

lemma ApplyIPToMask_parsed:
  assumes "UnmarshalYAML i u = (p, None)"
  shows "ApplyIPToMask p d =
     (if IP_Mask d (IP_mask p) = [] then Inl (IndexOutOfRange 0 0)
      else Inr (code_merge d (IP_mask p) (IP_ip p)))"
proof (cases "IP_Mask d (IP_mask p) = []")
  case True
  from parsed_lengths(1)[OF assms] have "To16 (IP_ip p) \<noteq> []" by (auto simp: To16_16)
  with True show ?thesis by (simp add: ApplyIPToMask_def To16_nil or_loop_nil)
next
  case False
  note m = parsed_lengths(2)[OF assms]
  have "length (To16 (IP_Mask d (IP_mask p))) = 16"
    using length_IP_Mask[OF m False] by (rule length_To16)
  moreover have "length (To16 (IP_ip p)) = 16"
    using parsed_lengths(1)[OF assms] by (simp add: To16_16)
  ultimately have "ApplyIPToMask p d =
      Inr (map2 (\<lambda>x b. x OR b) (To16 (IP_Mask d (IP_mask p))) (To16 (IP_ip p)))"
    by (simp add: ApplyIPToMask_def or_loop_same_length)
  with False show ?thesis
    by (simp add: code_merge_def To16_IP_Mask[OF m False])
qed

lemma IP_Mask_nonempty_To16:
  "length m = 4 \<or> length m = 16 \<Longrightarrow> IP_Mask d m \<noteq> [] \<Longrightarrow> length (To16 d) = 16 \<and> length (IPMask_To16 m) = 16"
  by (auto simp: IP_Mask_def Let_def IPv4len_def IPv6len_def IPMask_To16_def To16_4 To16_16 length_v4InV6Prefix split: if_splits)

lemma code_merge_nth:
  assumes "length (To16 d) = 16" "length (IPMask_To16 m) = 16" "length b = 16" "k < 16"
  shows "code_merge d m b ! k = ((To16 d ! k) AND (IPMask_To16 m ! k)) OR (b ! k)"
  using assms by (simp add: code_merge_def To16_16)

section \<open>Evaluating the parser on literals\<close>

text \<open>
  The simplifier evaluates the parser on a literal with these equations: the loops are
  unfolded one step at a time, and a numeral index or count is decreased by one.
\<close>

lemma CIDRMask_loop_unfold:
  "CIDRMask_loop l n =
     (if l = 0 then []
      else if n \<ge> 8 then 0xff # CIDRMask_loop (l - 1) (n - 8)
      else NOT (drop_bit n 0xff) # CIDRMask_loop (l - 1) 0)"
  by (cases l) auto

lemma list_update_numeral: "(x # xs)[numeral k := y] = x # xs[pred_numeral k := y]"
  by (simp add: numeral_eq_Suc)

lemma replicate_numeral': "replicate (numeral k) x = x # replicate (pred_numeral k) x"
  by (simp add: numeral_eq_Suc)

lemmas parse_eval =
  UnmarshalYAML_def zero_IP_def ParseCIDR_def ParseAddr_def parseIPv4_def parseIPv4Fields_def
  is_digit_def digit_val_def dtoi_def CIDRMask_def IPv4len_def IPv6len_def IP_Mask_def IPv4_def
  v4InV6Prefix_def Let_def CIDRMask_loop_unfold parseIPv6_def parseIPv6_loop.simps
  parseIPv6_finish_def hex_val_def list_update_numeral replicate_numeral' zero16_def

lemmas merge_eval =
  ApplyIPToMask_def IP_Mask_def To16_def IPv4_def IPv4len_def IPv6len_def v4InV6Prefix_def
  allFF_def

lemma parse_0_0_0_9_24:
  "UnmarshalYAML zero_IP (Inr ''0.0.0.9/24'') =
     (\<lparr>IP_ip = IPv4 0 0 0 9, IP_mask = [255, 255, 255, 0]\<rparr>, None)"
  by (simp add: parse_eval)

lemma parse_10_0_0_9_24:
  "UnmarshalYAML zero_IP (Inr ''10.0.0.9/24'') =
     (\<lparr>IP_ip = IPv4 10 0 0 9, IP_mask = [255, 255, 255, 0]\<rparr>, None)"
  by (simp add: parse_eval)

lemma parse_0_0_0_0_32:
  "UnmarshalYAML zero_IP (Inr ''0.0.0.0/32'') =
     (\<lparr>IP_ip = IPv4 0 0 0 0, IP_mask = [255, 255, 255, 255]\<rparr>, None)"
  by (simp add: parse_eval)

lemma parse_9_9_9_9_0:
  "UnmarshalYAML zero_IP (Inr ''9.9.9.9/0'') =
     (\<lparr>IP_ip = IPv4 9 9 9 9, IP_mask = [0, 0, 0, 0]\<rparr>, None)"
  by (simp add: parse_eval)

lemma parse_1234_64:
  "UnmarshalYAML zero_IP (Inr ''::1234:1234:1234:1234/64'') =
     (\<lparr>IP_ip = [0, 0, 0, 0, 0, 0, 0, 0, 0x12, 0x34, 0x12, 0x34, 0x12, 0x34, 0x12, 0x34],
       IP_mask = [255, 255, 255, 255, 255, 255, 255, 255, 0, 0, 0, 0, 0, 0, 0, 0]\<rparr>, None)"
  by (simp add: parse_eval)

lemma parsed_v4_prefix:
  assumes "UnmarshalYAML i u = (p, None)" and "length (IP_mask p) = 4"
  shows "take 12 (IP_ip p) = v4InV6Prefix"
proof -
  from UnmarshalYAML_None[OF assms(1)] obtain a n where
    a: "wf_Addr a" "n \<le> BitLen a" "IP_ip p = As16 a" "IP_mask p = CIDRMask n (BitLen a)" by blast
  show ?thesis
  proof (cases a)
    case (Addr4 b)
    with a(3) show ?thesis by (simp add: length_v4InV6Prefix)
  next
    case (Addr6 b z)
    with a(2,4) assms(2) show ?thesis by (simp add: length_CIDRMask)
  qed
qed

lemma merge_nth:
  assumes p: "UnmarshalYAML i u = (p, None)" and r: "ApplyIPToMask p d = Inr r" and k: "k < 16"
  shows "length r = 16"
    and "r ! k = ((To16 d ! k) AND (IPMask_To16 (IP_mask p) ! k)) OR (IP_ip p ! k)"
proof -
  from r have ne: "IP_Mask d (IP_mask p) \<noteq> []" and req: "r = code_merge d (IP_mask p) (IP_ip p)"
    by (auto simp: ApplyIPToMask_parsed[OF p] split: if_splits)
  note len = IP_Mask_nonempty_To16[OF parsed_lengths(2)[OF p] ne] parsed_lengths(1)[OF p]
  show "length r = 16" using len by (simp add: req code_merge_def To16_16)
  show "r ! k = ((To16 d ! k) AND (IPMask_To16 (IP_mask p) ! k)) OR (IP_ip p ! k)"
    unfolding req using len k by (intro code_merge_nth) auto
qed

lemma isZeros_nth: "isZeros m \<Longrightarrow> k < length m \<Longrightarrow> m ! k = 0"
  by (simp add: isZeros_def list_all_length)

lemma allFF_nth: "allFF m \<Longrightarrow> k < length m \<Longrightarrow> m ! k = 0xff"
  by (simp add: allFF_def list_all_length)

lemma byte_and_ff: "(x :: byte) AND 0xff = x"
proof -
  have e: "(0xff :: byte) = - 1" by simp
  show ?thesis by (simp only: e and.right_neutral)
qed

lemma merge_zero_mask:
  assumes p: "UnmarshalYAML i u = (p, None)" and r: "ApplyIPToMask p d = Inr r"
    and z: "isZeros (IP_mask p)"
  shows "r = IP_ip p"
proof (rule nth_equalityI)
  show "length r = length (IP_ip p)"
    using merge_nth(1)[OF p r, of 0] parsed_lengths(1)[OF p] by simp
next
  fix k assume "k < length r"
  then have k: "k < 16" using merge_nth(1)[OF p r, of 0] by simp
  from r have ne: "IP_Mask d (IP_mask p) \<noteq> []"
    by (auto simp: ApplyIPToMask_parsed[OF p] split: if_splits)
  note nth = merge_nth(2)[OF p r k]
  from parsed_lengths(2)[OF p] show "r ! k = IP_ip p ! k"
  proof
    assume m16: "length (IP_mask p) = 16"
    then have "IPMask_To16 (IP_mask p) ! k = 0"
      using z k by (simp add: IPMask_To16_def IPv4len_def isZeros_nth)
    with nth show ?thesis by simp
  next
    assume m4: "length (IP_mask p) = 4"
    have pre: "take 12 (IP_ip p) = v4InV6Prefix" by (rule parsed_v4_prefix[OF p m4])
    have dpre: "take 12 (To16 d) = v4InV6Prefix"
      using ne m4 by (auto simp: IP_Mask_def Let_def IPv4len_def IPv6len_def To16_4 To16_16
          length_v4InV6Prefix split: if_splits)
    show ?thesis
    proof (cases "k < 12")
      case True
      then have "IP_ip p ! k = v4InV6Prefix ! k" "To16 d ! k = v4InV6Prefix ! k"
        using pre dpre by (metis nth_take)+
      moreover have "IPMask_To16 (IP_mask p) ! k = 0xff"
        using True m4 by (simp add: IPMask_To16_def IPv4len_def nth_append)
      ultimately show ?thesis using nth by simp
    next
      case False
      then have "IPMask_To16 (IP_mask p) ! k = 0"
        using m4 z k by (simp add: IPMask_To16_def IPv4len_def nth_append isZeros_nth)
      with nth show ?thesis by simp
    qed
  qed
qed

lemma merge_full_mask:
  assumes p: "UnmarshalYAML i u = (p, None)" and r: "ApplyIPToMask p d = Inr r"
    and f: "allFF (IP_mask p)"
  shows "r = map2 (\<lambda>x b. x OR b) (To16 d) (IP_ip p)"
proof (rule nth_equalityI)
  from r have ne: "IP_Mask d (IP_mask p) \<noteq> []"
    by (auto simp: ApplyIPToMask_parsed[OF p] split: if_splits)
  note len = IP_Mask_nonempty_To16[OF parsed_lengths(2)[OF p] ne] parsed_lengths(1)[OF p]
  show l: "length r = length (map2 (\<lambda>x b. x OR b) (To16 d) (IP_ip p))"
    using merge_nth(1)[OF p r, of 0] len by simp
  fix k assume "k < length r"
  then have k: "k < 16" using merge_nth(1)[OF p r, of 0] by simp
  have "IPMask_To16 (IP_mask p) ! k = 0xff"
    using parsed_lengths(2)[OF p] f k
    by (auto simp: IPMask_To16_def IPv4len_def nth_append allFF_nth)
  with merge_nth(2)[OF p r k] show "r ! k = map2 (\<lambda>x b. x OR b) (To16 d) (IP_ip p) ! k"
    using len k by (simp add: byte_and_ff)
qed

lemma insertions_loop_log:
  "insertions_loop config four sixPrefix hosts ins log = (log', res) \<Longrightarrow>
   \<exists>es. log' = log @ es \<and> (\<forall>m s. Exchange m s \<notin> set es)"
proof (induction hosts arbitrary: ins log)
  case Nil
  then show ?case by simp
next
  case (Cons hp rest)
  obtain host ip where hp: "hp = (host, ip)" by (cases hp)
  show ?case
  proof (cases "ApplyIPToMask ip (if Is4 ip then four else sixPrefix)")
    case (Inl pn)
    with Cons.prems hp show ?thesis by (auto simp: Let_def split: if_splits)
  next
    case (Inr finalIp)
    with Cons.prems hp obtain ins1 e where
      "insertions_loop config four sixPrefix rest ins1 (log @ [e]) = (log', res)"
      and e: "\<forall>m s. e \<noteq> Exchange m s"
      by (auto simp: Let_def split: if_splits)
    from Cons.IH[OF this(1)] e show ?thesis by auto
  qed
qed

lemma insertions_loop_panics:
  assumes "(h, p) \<in> set hosts"
    and "ApplyIPToMask p (if Is4 p then four else sixPrefix) = Inl pn"
  shows "\<exists>log' pn'. insertions_loop config four sixPrefix hosts ins log = (log', Inl pn')"
  using assms
proof (induction hosts arbitrary: ins log)
  case Nil
  then show ?case by simp
next
  case (Cons hp rest)
  obtain host ip where hp: "hp = (host, ip)" by (cases hp)
  show ?case
  proof (cases "ApplyIPToMask ip (if Is4 ip then four else sixPrefix)")
    case (Inl pn0)
    with hp show ?thesis by (auto simp: Let_def split: if_splits)
  next
    case (Inr finalIp)
    with Cons.prems hp have "(h, p) \<in> set rest" by auto
    from Cons.IH[OF this Cons.prems(2)] Inr hp show ?thesis
      by (auto simp: Let_def split: if_splits)
  qed
qed

section \<open>Facts about the resolver, the host loop and the example\<close>

lemma parse_cidr_10_0_0_9_24:
  "ParseCIDR ''10.0.0.9/24'' =
     Inr (IPv4 10 0 0 9, \<lparr>IPNet_IP = [10, 0, 0, 0], IPNet_Mask = [255, 255, 255, 0]\<rparr>)"
  by (simp add: parse_eval)

lemma ParseCIDR_address:
  assumes "ParseCIDR s = Inr (ip, ipnet)"
  shows "\<exists>k a. IndexByteString s (CHR ''/'') = Some k \<and> ParseAddr (take k s) = Some (a, []) \<and>
               ip = As16 a"
proof -
  from assms obtain i where i: "IndexByteString s (CHR ''/'') = Some i"
    unfolding ParseCIDR_def by (cases "IndexByteString s (CHR ''/'')") auto
  from assms i obtain a z where a: "ParseAddr (take i s) = Some (a, z)"
    unfolding ParseCIDR_def by (cases "ParseAddr (take i s)") (auto simp: Let_def)
  obtain n j ok where d: "dtoi (drop (Suc i) s) = (n, j, ok)"
    by (cases "dtoi (drop (Suc i) s)") auto
  from assms i a d have "z = [] \<and> ip = As16 a"
    unfolding ParseCIDR_def by (auto simp add: Let_def split: if_splits)
  with i a show ?thesis by blast
qed

lemma chooseUnicast_comprehension:
  "chooseUnicast a = [ipnet. IPNetAddr ipnet \<leftarrow> a, IsGlobalUnicast (IPNet_IP ipnet)]"
  by (induction a rule: chooseUnicast.induct) auto

lemma chooseFour_find:
  "chooseFour ins =
     (case find (\<lambda>inet. To4 (IPNet_IP inet) \<noteq> []) ins of
        None \<Rightarrow> [] | Some inet \<Rightarrow> To4 (IPNet_IP inet))"
  by (induction ins) (auto simp: Let_def)

lemma chooseSix_find:
  "chooseSix ins =
     (case find (\<lambda>inet. To4 (IPNet_IP inet) = []) ins of
        None \<Rightarrow> [] | Some inet \<Rightarrow> IP_Mask (IPNet_IP inet) (IPNet_Mask inet))"
  by (induction ins) (auto simp: Let_def)

lemma chooseUnicast_global:
  "inet \<in> set (chooseUnicast a) \<Longrightarrow> IsGlobalUnicast (IPNet_IP inet)"
  by (induction a rule: chooseUnicast.induct) (auto split: if_splits)

lemma length_To4: "To4 ip \<noteq> [] \<Longrightarrow> length (To4 ip) = 4"
  by (auto simp: To4_def IPv4len_def IPv6len_def split: if_splits)

lemma IP_Mask_same_length:
  "length ip = 16 \<Longrightarrow> length m = 16 \<Longrightarrow> IP_Mask ip m = map2 (\<lambda>b k. b AND k) ip m"
  by (simp add: IP_Mask_def IPv4len_def IPv6len_def)

lemma To4_nil_global: "IsGlobalUnicast ip \<Longrightarrow> To4 ip = [] \<Longrightarrow> length ip = 16"
  by (auto simp: IsGlobalUnicast_def To4_def IPv4len_def IPv6len_def split: if_splits)

lemma resolve_loop_append:
  "resolve_loop ff sf (xs @ ys) st = resolve_loop ff sf ys (resolve_loop ff sf xs st)"
proof (induction xs arbitrary: st)
  case Nil
  then show ?case by (cases st) simp
next
  case (Cons x xs)
  then show ?case by (cases st) (simp add: Let_def split: sum.splits)
qed

lemma resolve_loop_four_nil:
  assumes "\<forall>i \<in> set ifs. iface_Name i = ff \<longrightarrow>
             (\<exists>e. iface_Addrs i = Inl e) \<or> iface_Addrs i = Inr []"
    and "fst st = []"
  shows "fst (resolve_loop ff sf ifs st) = []"
  using assms
proof (induction ifs arbitrary: st)
  case Nil
  then show ?case by (cases st) simp
next
  case (Cons i ifs)
  obtain four six where st: "st = (four, six)" by (cases st)
  show ?case
  proof (cases "iface_Addrs i")
    case (Inl e)
    with Cons st show ?thesis by simp
  next
    case (Inr addrs)
    have "fst (if iface_Name i = ff then chooseFour (chooseUnicast addrs) else four,
               if iface_Name i = sf then chooseSix (chooseUnicast addrs) else six) = []"
      using Cons.prems Inr st by auto
    from Cons.IH[OF _ this] Cons.prems(1) Inr st show ?thesis by (simp add: Let_def)
  qed
qed

lemma resolve_loop_six_nil:
  assumes "\<forall>i \<in> set ifs. iface_Name i = sf \<longrightarrow>
             (\<exists>e. iface_Addrs i = Inl e) \<or> iface_Addrs i = Inr []"
    and "snd st = []"
  shows "snd (resolve_loop ff sf ifs st) = []"
  using assms
proof (induction ifs arbitrary: st)
  case Nil
  then show ?case by (cases st) simp
next
  case (Cons i ifs)
  obtain four six where st: "st = (four, six)" by (cases st)
  show ?case
  proof (cases "iface_Addrs i")
    case (Inl e)
    with Cons st show ?thesis by simp
  next
    case (Inr addrs)
    have "snd (if iface_Name i = ff then chooseFour (chooseUnicast addrs) else four,
               if iface_Name i = sf then chooseSix (chooseUnicast addrs) else six) = []"
      using Cons.prems Inr st by auto
    from Cons.IH[OF _ this] Cons.prems(1) Inr st show ?thesis by (simp add: Let_def)
  qed
qed

lemma insertions_loop_structure:
  assumes "\<forall>(host, ip) \<in> set hosts.
             \<exists>finalIp. ApplyIPToMask ip (if Is4 ip then four else sixPrefix) = Inr finalIp"
  shows "\<exists>log' new. insertions_loop config four sixPrefix hosts ins log = (log', Inr (ins @ new)) \<and>
     length new = 2 * length hosts \<and>
     (\<forall>k < length hosts.
        new ! (2 * k) =
          dns_ANY \<lparr>hdr_Name = joinDomain (fst (hosts ! k)) (Zone config), hdr_Rrtype = TypeANY,
                   hdr_Class = ClassANY, hdr_Ttl = 0, hdr_Rdlength = 0\<rparr> \<and>
        (\<exists>finalIp.
           ApplyIPToMask (snd (hosts ! k)) (if Is4 (snd (hosts ! k)) then four else sixPrefix)
             = Inr finalIp \<and>
           new ! (2 * k + 1) =
             (if Is4 (snd (hosts ! k))
              then dns_A \<lparr>hdr_Name = joinDomain (fst (hosts ! k)) (Zone config),
                          hdr_Rrtype = TypeA, hdr_Class = ClassINET, hdr_Ttl = Ttl config,
                          hdr_Rdlength = 0\<rparr> finalIp
              else dns_AAAA \<lparr>hdr_Name = joinDomain (fst (hosts ! k)) (Zone config),
                             hdr_Rrtype = TypeAAAA, hdr_Class = ClassINET, hdr_Ttl = Ttl config,
                             hdr_Rdlength = 0\<rparr> finalIp)))"
  using assms
proof (induction hosts arbitrary: ins log)
  case Nil
  then show ?case by simp
next
  case (Cons hp rest)
  obtain host ip where hp: "hp = (host, ip)" by (cases hp)
  from Cons.prems hp obtain finalIp where
    f: "ApplyIPToMask ip (if Is4 ip then four else sixPrefix) = Inr finalIp" by auto
  define any where "any = dns_ANY \<lparr>hdr_Name = joinDomain host (Zone config), hdr_Rrtype = TypeANY,
                   hdr_Class = ClassANY, hdr_Ttl = 0, hdr_Rdlength = 0\<rparr>"
  define rec where "rec = (if Is4 ip
              then dns_A \<lparr>hdr_Name = joinDomain host (Zone config),
                          hdr_Rrtype = TypeA, hdr_Class = ClassINET, hdr_Ttl = Ttl config,
                          hdr_Rdlength = 0\<rparr> finalIp
              else dns_AAAA \<lparr>hdr_Name = joinDomain host (Zone config),
                             hdr_Rrtype = TypeAAAA, hdr_Class = ClassINET, hdr_Ttl = Ttl config,
                             hdr_Rdlength = 0\<rparr> finalIp)"
  define ev where "ev = Printf_Updating (Is4 ip) (joinDomain host (Zone config)) finalIp"
  have step: "insertions_loop config four sixPrefix (hp # rest) ins log
      = insertions_loop config four sixPrefix rest ((ins @ [any]) @ [rec]) (log @ [ev])"
    using f by (cases "Is4 ip") (simp_all add: hp Let_def any_def rec_def ev_def)
  from Cons.prems have "\<forall>(host, ip) \<in> set rest.
             \<exists>finalIp. ApplyIPToMask ip (if Is4 ip then four else sixPrefix) = Inr finalIp"
    by simp
  from Cons.IH[OF this, of "(ins @ [any]) @ [rec]" "log @ [ev]"] obtain log' new where
    l: "insertions_loop config four sixPrefix rest ((ins @ [any]) @ [rec]) (log @ [ev])
          = (log', Inr (((ins @ [any]) @ [rec]) @ new))"
    and n: "length new = 2 * length rest"
    and s: "\<And>k. k < length rest \<Longrightarrow>
        new ! (2 * k) =
          dns_ANY \<lparr>hdr_Name = joinDomain (fst (rest ! k)) (Zone config), hdr_Rrtype = TypeANY,
                   hdr_Class = ClassANY, hdr_Ttl = 0, hdr_Rdlength = 0\<rparr> \<and>
        (\<exists>finalIp.
           ApplyIPToMask (snd (rest ! k)) (if Is4 (snd (rest ! k)) then four else sixPrefix)
             = Inr finalIp \<and>
           new ! (2 * k + 1) =
             (if Is4 (snd (rest ! k))
              then dns_A \<lparr>hdr_Name = joinDomain (fst (rest ! k)) (Zone config),
                          hdr_Rrtype = TypeA, hdr_Class = ClassINET, hdr_Ttl = Ttl config,
                          hdr_Rdlength = 0\<rparr> finalIp
              else dns_AAAA \<lparr>hdr_Name = joinDomain (fst (rest ! k)) (Zone config),
                             hdr_Rrtype = TypeAAAA, hdr_Class = ClassINET, hdr_Ttl = Ttl config,
                             hdr_Rdlength = 0\<rparr> finalIp))"
    by blast
  show ?case
  proof (intro exI[of _ log'] exI[of _ "any # rec # new"] conjI allI impI)
    show "insertions_loop config four sixPrefix (hp # rest) ins log
            = (log', Inr (ins @ any # rec # new))"
      using step l by simp
    show "length (any # rec # new) = 2 * length (hp # rest)" using n by simp
  next
    fix k assume k: "k < length (hp # rest)"
    show "(any # rec # new) ! (2 * k) =
          dns_ANY \<lparr>hdr_Name = joinDomain (fst ((hp # rest) ! k)) (Zone config), hdr_Rrtype = TypeANY,
                   hdr_Class = ClassANY, hdr_Ttl = 0, hdr_Rdlength = 0\<rparr>"
    proof (cases k)
      case 0
      then show ?thesis by (simp add: any_def hp)
    next
      case (Suc k')
      with k s[of k'] show ?thesis by simp
    qed
    show "\<exists>finalIp.
           ApplyIPToMask (snd ((hp # rest) ! k)) (if Is4 (snd ((hp # rest) ! k)) then four else sixPrefix)
             = Inr finalIp \<and>
           (any # rec # new) ! (2 * k + 1) =
             (if Is4 (snd ((hp # rest) ! k))
              then dns_A \<lparr>hdr_Name = joinDomain (fst ((hp # rest) ! k)) (Zone config),
                          hdr_Rrtype = TypeA, hdr_Class = ClassINET, hdr_Ttl = Ttl config,
                          hdr_Rdlength = 0\<rparr> finalIp
              else dns_AAAA \<lparr>hdr_Name = joinDomain (fst ((hp # rest) ! k)) (Zone config),
                             hdr_Rrtype = TypeAAAA, hdr_Class = ClassINET, hdr_Ttl = Ttl config,
                             hdr_Rdlength = 0\<rparr> finalIp)"
    proof (cases k)
      case 0
      then show ?thesis using f by (intro exI[of _ finalIp]) (simp add: rec_def hp)
    next
      case (Suc k')
      with k s[of k'] show ?thesis by (cases "Is4 (snd (rest ! k'))") auto
    qed
  qed
qed

lemma msg_Ns_build_update:
  "msg_Ns (build_update config insertions now_string now_unix) =
     insertions @ [dns_TXT \<lparr>hdr_Name = Fqdn (Zone config), hdr_Rrtype = TypeTXT,
                      hdr_Class = ClassINET, hdr_Ttl = Ttl config, hdr_Rdlength = 0\<rparr>
               [now_string]]"
  by (simp add: build_update_def SetTsig_def SetUpdate_def Let_def)

lemma main_update_built:
  assumes "insertions_loop config four sixPrefix (Hosts config) [] [] = (log, Inr insertions)"
  shows "main_update config four sixPrefix now_string now_unix exchange =
     (log @ [Exchange (build_update config insertions now_string now_unix) (Server config)] @
        (case snd (exchange (build_update config insertions now_string now_unix) (Server config)) of
           None \<Rightarrow> []
         | Some e \<Rightarrow>
             [Print_reply (fst (exchange (build_update config insertions now_string now_unix)
                                  (Server config))),
              Fatal ''Failed to update DNS sever:'' e]),
      (case snd (exchange (build_update config insertions now_string now_unix) (Server config)) of
         None \<Rightarrow> Returned | Some e \<Rightarrow> Exited))"
  using assms by (simp add: main_update_def Let_def split: prod.splits option.splits)

lemma example_hosts_parsed:
  "UnmarshalYAML zero_IP (Inr ''0.0.0.0/32'') = (example_host4, None)"
  "UnmarshalYAML zero_IP (Inr ''::1234:1234:1234:1234/64'') = (example_host6, None)"
  by (simp_all add: parse_0_0_0_0_32 parse_1234_64 example_host4_def example_host6_def)

lemma example_Is4: "Is4 example_host4" "\<not> Is4 example_host6"
  by (simp_all add: Is4_def To4_def isZeros_def IPv4_def v4InV6Prefix_def IPv4len_def IPv6len_def
        example_host4_def example_host6_def)

lemma example_merge4:
  "ApplyIPToMask example_host4 example_four = Inr (IPv4 198 100 123 139)"
  by (simp add: example_host4_def example_four_def merge_eval)

lemma example_merge6:
  "ApplyIPToMask example_host6 example_six =
     Inr [0x20, 0x01, 0x04, 0x70, 0x1f, 0x0e, 0x08, 0x3f, 0x12, 0x34, 0x12, 0x34, 0x12, 0x34, 0x12, 0x34]"
  by (simp add: example_host6_def example_six_def merge_eval)

lemma example_hyp:
  "\<forall>(host, ip) \<in> set (Hosts example_config).
     \<exists>finalIp. ApplyIPToMask ip (if Is4 ip then example_four else example_six) = Inr finalIp"
  by (simp add: example_config_def example_Is4 example_merge4 example_merge6)

lemma example_loop:
  "insertions_loop example_config example_four example_six (Hosts example_config) [] [] =
     ([Printf_Updating True (joinDomain ''@'' (Zone example_config)) (IPv4 198 100 123 139),
       Printf_Updating False (joinDomain ''host1'' (Zone example_config))
         [0x20, 0x01, 0x04, 0x70, 0x1f, 0x0e, 0x08, 0x3f,
          0x12, 0x34, 0x12, 0x34, 0x12, 0x34, 0x12, 0x34]],
      Inr [dns_ANY \<lparr>hdr_Name = joinDomain ''@'' (Zone example_config), hdr_Rrtype = TypeANY,
                    hdr_Class = ClassANY, hdr_Ttl = 0, hdr_Rdlength = 0\<rparr>,
           dns_A \<lparr>hdr_Name = joinDomain ''@'' (Zone example_config), hdr_Rrtype = TypeA,
                  hdr_Class = ClassINET, hdr_Ttl = 300, hdr_Rdlength = 0\<rparr>
             (IPv4 198 100 123 139),
           dns_ANY \<lparr>hdr_Name = joinDomain ''host1'' (Zone example_config), hdr_Rrtype = TypeANY,
                    hdr_Class = ClassANY, hdr_Ttl = 0, hdr_Rdlength = 0\<rparr>,
           dns_AAAA \<lparr>hdr_Name = joinDomain ''host1'' (Zone example_config), hdr_Rrtype = TypeAAAA,
                     hdr_Class = ClassINET, hdr_Ttl = 300, hdr_Rdlength = 0\<rparr>
             [0x20, 0x01, 0x04, 0x70, 0x1f, 0x0e, 0x08, 0x3f,
              0x12, 0x34, 0x12, 0x34, 0x12, 0x34, 0x12, 0x34]])"
  by (simp add: example_config_def example_Is4 example_merge4 example_merge6 Let_def)

lemma example_loop':
  "insertions_loop example_config example_four example_six (Hosts example_config) [] [] =
     (example_log, Inr example_insertions)"
  by (simp add: example_loop example_log_def example_insertions_def)

lemma azure_loop_ttl:
  "azure_loop updater four sixPrefix hosts started = (started', res) \<Longrightarrow>
   list_all (\<lambda>r. req_TTL r = 300) started \<Longrightarrow> list_all (\<lambda>r. req_TTL r = 300) started'"
proof (induction hosts arbitrary: started)
  case Nil
  then show ?case by simp
next
  case (Cons hp rest)
  obtain host ip where hp: "hp = (host, ip)" by (cases hp)
  show ?case
  proof (cases "ApplyIPToMask ip (if Is4 ip then four else sixPrefix)")
    case (Inl p)
    with Cons.prems hp show ?thesis by (auto split: if_splits)
  next
    case (Inr finalIp)
    with Cons.prems hp show ?thesis
      by (cases "Is4 ip") (auto intro!: Cons.IH simp: SetARecord_def SetAAAARecord_def)
  qed
qed

lemmas resolver_eval =
  IsGlobalUnicast_def IsUnspecified_def IsLoopback_def IsMulticast_def IsLinkLocalUnicast_def
  IP_Equal_def IPv4bcast_def IPv4zero_def IPv6unspecified_def IPv6loopback_def To4_def
  isZeros_def IPv4_def v4InV6Prefix_def IPv4len_def IPv6len_def

lemma example_chooseUnicast:
  "chooseUnicast example_addrs =
     [\<lparr>IPNet_IP = IPv4 198 100 123 139, IPNet_Mask = [255, 255, 255, 0]\<rparr>,
      \<lparr>IPNet_IP = [0x20, 0x01, 0x04, 0x70, 0x1f, 0x0e, 0x08, 0x3f, 0, 0, 0, 0, 0, 0, 0, 2],
       IPNet_Mask = [255, 255, 255, 255, 255, 255, 255, 255, 0, 0, 0, 0, 0, 0, 0, 0]\<rparr>,
      \<lparr>IPNet_IP = IPv4 203 0 113 5, IPNet_Mask = [255, 255, 255, 0]\<rparr>]"
  by (simp add: example_addrs_def resolver_eval)

section \<open>The merge of a discovered address and a partial address\<close>

text \<open>
  Claim C2. The merge gives the results of the two documented examples: the partial
  address parsed from \<open>0.0.0.9/24\<close> merged with the discovered address \<open>1.2.3.4\<close> is
  \<open>1.2.3.9\<close>, and the one parsed from \<open>::1234:1234:1234:1234/64\<close> merged with the
  discovered prefix \<open>2001:0470:1f0e:083f::\<close> is
  \<open>2001:0470:1f0e:083f:1234:1234:1234:1234\<close>.
\<close>

theorem merge_documented_examples:
  "snd (UnmarshalYAML zero_IP (Inr ''0.0.0.9/24'')) = None \<and>
   ApplyIPToMask (fst (UnmarshalYAML zero_IP (Inr ''0.0.0.9/24''))) [1, 2, 3, 4]
     = Inr (IPv4 1 2 3 9) \<and>
   snd (UnmarshalYAML zero_IP (Inr ''::1234:1234:1234:1234/64'')) = None \<and>
   ApplyIPToMask (fst (UnmarshalYAML zero_IP (Inr ''::1234:1234:1234:1234/64'')))
       [0x20, 0x01, 0x04, 0x70, 0x1f, 0x0e, 0x08, 0x3f, 0, 0, 0, 0, 0, 0, 0, 0]
     = Inr [0x20, 0x01, 0x04, 0x70, 0x1f, 0x0e, 0x08, 0x3f,
            0x12, 0x34, 0x12, 0x34, 0x12, 0x34, 0x12, 0x34]"
  by (simp add: parse_0_0_0_9_24 parse_1234_64 merge_eval)

text \<open>
  Claim C1, as the specification states it: where the mask bit is 0 the result takes
  the bit of the discovered address, where it is 1 the bit of the base, that is
  \<open>merged = (d & ~mask) | baseBits\<close>; a \<open>/32\<close> partial address overrides the discovered
  address and a \<open>/0\<close> one is overridden by it. The program does not compute this. For
  \<open>::1234:1234:1234:1234/64\<close> and the discovered prefix \<open>2001:470:1f0e:83f::\<close> it
  returns \<open>2001:470:1f0e:83f:1234:1234:1234:1234\<close>, while \<open>spec_merge\<close> is
  \<open>::1234:1234:1234:1234\<close>; the results differ for \<open>0.0.0.9/24\<close> and \<open>1.2.3.4\<close> as
  well. Under \<open>0.0.0.0/32\<close> the result for \<open>1.2.3.4\<close> is not the base, and under
  \<open>9.9.9.9/0\<close> it is not the discovered address.
\<close>

theorem spec_merge_counterexample:
  "ApplyIPToMask (fst (UnmarshalYAML zero_IP (Inr ''::1234:1234:1234:1234/64'')))
       [0x20, 0x01, 0x04, 0x70, 0x1f, 0x0e, 0x08, 0x3f, 0, 0, 0, 0, 0, 0, 0, 0]
     = Inr [0x20, 0x01, 0x04, 0x70, 0x1f, 0x0e, 0x08, 0x3f,
            0x12, 0x34, 0x12, 0x34, 0x12, 0x34, 0x12, 0x34] \<and>
   spec_merge [0x20, 0x01, 0x04, 0x70, 0x1f, 0x0e, 0x08, 0x3f, 0, 0, 0, 0, 0, 0, 0, 0]
       (IP_mask (fst (UnmarshalYAML zero_IP (Inr ''::1234:1234:1234:1234/64''))))
       (IP_ip (fst (UnmarshalYAML zero_IP (Inr ''::1234:1234:1234:1234/64''))))
     = [0, 0, 0, 0, 0, 0, 0, 0, 0x12, 0x34, 0x12, 0x34, 0x12, 0x34, 0x12, 0x34] \<and>
   ApplyIPToMask (fst (UnmarshalYAML zero_IP (Inr ''::1234:1234:1234:1234/64'')))
       [0x20, 0x01, 0x04, 0x70, 0x1f, 0x0e, 0x08, 0x3f, 0, 0, 0, 0, 0, 0, 0, 0]
     \<noteq> Inr (spec_merge [0x20, 0x01, 0x04, 0x70, 0x1f, 0x0e, 0x08, 0x3f, 0, 0, 0, 0, 0, 0, 0, 0]
              (IP_mask (fst (UnmarshalYAML zero_IP (Inr ''::1234:1234:1234:1234/64''))))
              (IP_ip (fst (UnmarshalYAML zero_IP (Inr ''::1234:1234:1234:1234/64''))))) \<and>
   ApplyIPToMask (fst (UnmarshalYAML zero_IP (Inr ''0.0.0.9/24''))) [1, 2, 3, 4]
     \<noteq> Inr (spec_merge [1, 2, 3, 4]
              (IP_mask (fst (UnmarshalYAML zero_IP (Inr ''0.0.0.9/24''))))
              (IP_ip (fst (UnmarshalYAML zero_IP (Inr ''0.0.0.9/24''))))) \<and>
   ApplyIPToMask (fst (UnmarshalYAML zero_IP (Inr ''0.0.0.0/32''))) [1, 2, 3, 4]
     \<noteq> Inr (IP_ip (fst (UnmarshalYAML zero_IP (Inr ''0.0.0.0/32'')))) \<and>
   ApplyIPToMask (fst (UnmarshalYAML zero_IP (Inr ''9.9.9.9/0''))) [1, 2, 3, 4]
     \<noteq> Inr (To16 [1, 2, 3, 4])"
  by (simp add: parse_0_0_0_9_24 parse_1234_64 parse_0_0_0_0_32 parse_9_9_9_9_0 merge_eval
        spec_merge_def IPMask_To16_def replicate_numeral')

text \<open>
  Claim C1, amended. For every parsed partial address \<open>p\<close> and every discovered address
  \<open>d\<close>, \<open>ApplyIPToMask\<close> panics when \<open>d\<close> masked with the mask of \<open>p\<close> is nil, and otherwise
  returns \<open>(d & mask) | baseBits\<close> on 16-byte forms: a bit of the result is set when the
  bit of the base is set, or when the bit of the mask and the bit of \<open>d\<close> are both set. So
  where the mask bit is 0 the result takes the bit of the base, and where it is 1 the
  disjunction of the bits of \<open>d\<close> and of the base. In particular, under a mask of zero
  bits (a \<open>/0\<close> partial address) the result is the base, and under a mask of one bits (a
  \<open>/32\<close> or \<open>/128\<close> one) it is \<open>d\<close> with the bits of the base set in addition.
\<close>

theorem merge_is_masked_discovered_or_base:
  assumes "UnmarshalYAML i u = (p, None)"
  shows "ApplyIPToMask p d =
           (if IP_Mask d (IP_mask p) = [] then Inl (IndexOutOfRange 0 0)
            else Inr (code_merge d (IP_mask p) (IP_ip p))) \<and>
         (\<forall>r k j. ApplyIPToMask p d = Inr r \<longrightarrow> k < 16 \<longrightarrow>
            bit (r ! k) j =
              (bit (To16 d ! k) j \<and> bit (IPMask_To16 (IP_mask p) ! k) j \<or> bit (IP_ip p ! k) j)) \<and>
         (\<forall>r. ApplyIPToMask p d = Inr r \<longrightarrow> isZeros (IP_mask p) \<longrightarrow> r = IP_ip p) \<and>
         (\<forall>r. ApplyIPToMask p d = Inr r \<longrightarrow> allFF (IP_mask p) \<longrightarrow>
            r = map2 (\<lambda>x b. x OR b) (To16 d) (IP_ip p))"
proof (intro conjI allI impI)
  show "ApplyIPToMask p d =
           (if IP_Mask d (IP_mask p) = [] then Inl (IndexOutOfRange 0 0)
            else Inr (code_merge d (IP_mask p) (IP_ip p)))"
    by (rule ApplyIPToMask_parsed[OF assms])
next
  fix r and k j :: nat assume "ApplyIPToMask p d = Inr r" "k < 16"
  from merge_nth(2)[OF assms this]
  show "bit (r ! k) j =
      (bit (To16 d ! k) j \<and> bit (IPMask_To16 (IP_mask p) ! k) j \<or> bit (IP_ip p ! k) j)"
    by (simp add: bit_or_iff bit_and_iff)
next
  fix r assume "ApplyIPToMask p d = Inr r" "isZeros (IP_mask p)"
  then show "r = IP_ip p" by (rule merge_zero_mask[OF assms])
next
  fix r assume "ApplyIPToMask p d = Inr r" "allFF (IP_mask p)"
  then show "r = map2 (\<lambda>x b. x OR b) (To16 d) (IP_ip p)" by (rule merge_full_mask[OF assms])
qed

theorem merge_is_masked_discovered_or_base_witness:
  "UnmarshalYAML zero_IP (Inr ''0.0.0.0/32'') =
     (\<lparr>IP_ip = IPv4 0 0 0 0, IP_mask = [255, 255, 255, 255]\<rparr>, None) \<and>
   ApplyIPToMask \<lparr>IP_ip = IPv4 0 0 0 0, IP_mask = [255, 255, 255, 255]\<rparr> [1, 2, 3, 4]
     = Inr (IPv4 1 2 3 4) \<and>
   allFF [255, 255, 255, 255] \<and>
   IPv4 1 2 3 4 = map2 (\<lambda>x b. x OR b) (To16 [1, 2, 3, 4]) (IPv4 0 0 0 0) \<and>
   (15 :: nat) < 16 \<and>
   bit (IPv4 1 2 3 4 ! 15) 2 =
     (bit (To16 [1, 2, 3, 4] ! 15) 2 \<and> bit (IPMask_To16 [255, 255, 255, 255] ! 15) 2 \<or>
      bit (IPv4 0 0 0 0 ! 15) 2) \<and>
   UnmarshalYAML zero_IP (Inr ''9.9.9.9/0'') =
     (\<lparr>IP_ip = IPv4 9 9 9 9, IP_mask = [0, 0, 0, 0]\<rparr>, None) \<and>
   isZeros [0, 0, 0, 0] \<and>
   ApplyIPToMask \<lparr>IP_ip = IPv4 9 9 9 9, IP_mask = [0, 0, 0, 0]\<rparr> [1, 2, 3, 4]
     = Inr (IPv4 9 9 9 9) \<and>
   ApplyIPToMask \<lparr>IP_ip = IPv4 9 9 9 9, IP_mask = [0, 0, 0, 0]\<rparr> []
     = Inl (IndexOutOfRange 0 0)"
proof -
  let ?p32 = "\<lparr>IP_ip = IPv4 0 0 0 0, IP_mask = [255, 255, 255, 255]\<rparr>"
  let ?p0 = "\<lparr>IP_ip = IPv4 9 9 9 9, IP_mask = [0, 0, 0, 0]\<rparr>"
  have h32: "UnmarshalYAML zero_IP (Inr ''0.0.0.0/32'') = (?p32, None)"
    by (rule parse_0_0_0_0_32)
  have h0: "UnmarshalYAML zero_IP (Inr ''9.9.9.9/0'') = (?p0, None)"
    by (rule parse_9_9_9_9_0)
  note t32 = merge_is_masked_discovered_or_base[OF h32, of "[1, 2, 3, 4]", unfolded IP.select_convs]
  note t0 = merge_is_masked_discovered_or_base[OF h0, of "[1, 2, 3, 4]", unfolded IP.select_convs]
  note tn = merge_is_masked_discovered_or_base[OF h0, of "[]", unfolded IP.select_convs]
  have ne: "IP_Mask [1, 2, 3, 4] [255, 255, 255, 255] \<noteq> []" "IP_Mask [1, 2, 3, 4] [0, 0, 0, 0] \<noteq> []"
    "IP_Mask [] [0, 0, 0, 0] = []"
    by (simp_all add: IP_Mask_def IPv4len_def IPv6len_def)
  have f: "allFF [255, 255, 255, 255]" and z: "isZeros [0, 0, 0, 0]"
    by (simp_all add: allFF_def isZeros_def)
  have lt: "(15 :: nat) < 16" by simp
  have m32: "ApplyIPToMask ?p32 [1, 2, 3, 4] = Inr (IPv4 1 2 3 4)"
    using t32 ne(1)
    by (simp add: code_merge_def To16_def IPv4_def v4InV6Prefix_def IPMask_To16_def IPv4len_def
          IPv6len_def replicate_numeral')
  from t32 m32 f have full: "IPv4 1 2 3 4 = map2 (\<lambda>x b. x OR b) (To16 [1, 2, 3, 4]) (IPv4 0 0 0 0)"
    by blast
  from t32 m32 lt have b: "bit (IPv4 1 2 3 4 ! 15) 2 =
     (bit (To16 [1, 2, 3, 4] ! 15) 2 \<and> bit (IPMask_To16 [255, 255, 255, 255] ! 15) 2 \<or>
      bit (IPv4 0 0 0 0 ! 15) 2)"
    by blast
  from t0 ne(2) obtain r where m0: "ApplyIPToMask ?p0 [1, 2, 3, 4] = Inr r" by auto
  with t0 z have "r = IPv4 9 9 9 9" by blast
  with m0 have m0': "ApplyIPToMask ?p0 [1, 2, 3, 4] = Inr (IPv4 9 9 9 9)" by simp
  from tn ne(3) have mn: "ApplyIPToMask ?p0 [] = Inl (IndexOutOfRange 0 0)" by simp
  from h32 m32 f full lt b h0 z m0' mn show ?thesis by blast
qed

text \<open>
  Claim C10. Parsing a valid CIDR literal stores the whole address of the literal as the
  base: \<open>UnmarshalYAML\<close> keeps the first result of \<open>ParseCIDR\<close>, the address before the
  slash in 16-byte form, and not the masked network address. So in every merge that
  returns, a byte of the result is the byte of the discovered address, masked, with the
  byte of the base set in addition: a bit set in the base is set in the result, also
  inside the region of the mask, where the result bit is the disjunction of the bits of
  the discovered address and of the base.
\<close>

theorem parse_keeps_full_base_and_merge_ors_it:
  assumes "ParseCIDR raw = Inr (ip, ipnet)"
  shows "UnmarshalYAML i (Inr raw) = (i\<lparr>IP_ip := ip, IP_mask := IPNet_Mask ipnet\<rparr>, None) \<and>
         (\<exists>k a. IndexByteString raw (CHR ''/'') = Some k \<and>
                ParseAddr (take k raw) = Some (a, []) \<and> ip = As16 a) \<and>
         (\<forall>d r n j. ApplyIPToMask (i\<lparr>IP_ip := ip, IP_mask := IPNet_Mask ipnet\<rparr>) d = Inr r \<longrightarrow>
            n < 16 \<longrightarrow>
              r ! n = ((To16 d ! n) AND (IPMask_To16 (IPNet_Mask ipnet) ! n)) OR (ip ! n) \<and>
              (bit (ip ! n) j \<longrightarrow> bit (r ! n) j) \<and>
              (bit (IPMask_To16 (IPNet_Mask ipnet) ! n) j \<longrightarrow>
                 bit (r ! n) j = (bit (To16 d ! n) j \<or> bit (ip ! n) j)))"
proof (intro conjI allI impI)
  show u: "UnmarshalYAML i (Inr raw) = (i\<lparr>IP_ip := ip, IP_mask := IPNet_Mask ipnet\<rparr>, None)"
    using assms by (simp add: UnmarshalYAML_def)
  show "\<exists>k a. IndexByteString raw (CHR ''/'') = Some k \<and>
                ParseAddr (take k raw) = Some (a, []) \<and> ip = As16 a"
    by (rule ParseCIDR_address[OF assms])
  fix d r and n j :: nat
  assume r: "ApplyIPToMask (i\<lparr>IP_ip := ip, IP_mask := IPNet_Mask ipnet\<rparr>) d = Inr r" and n: "n < 16"
  from merge_nth(2)[OF u r n]
  show nth: "r ! n = ((To16 d ! n) AND (IPMask_To16 (IPNet_Mask ipnet) ! n)) OR (ip ! n)"
    by simp
  { assume "bit (ip ! n) j"
    then show "bit (r ! n) j" by (simp add: nth bit_or_iff) }
  { assume "bit (IPMask_To16 (IPNet_Mask ipnet) ! n) j"
    then show "bit (r ! n) j = (bit (To16 d ! n) j \<or> bit (ip ! n) j)"
      by (simp add: nth bit_or_iff bit_and_iff) }
qed

text \<open>
  The example of the claim: the base \<open>10.0.0.9/24\<close> merged with the discovered address
  \<open>1.2.3.4\<close> is \<open>11.2.3.9\<close>.
\<close>

theorem parse_keeps_full_base_and_merge_ors_it_witness:
  "ParseCIDR ''10.0.0.9/24'' =
     Inr (IPv4 10 0 0 9, \<lparr>IPNet_IP = [10, 0, 0, 0], IPNet_Mask = [255, 255, 255, 0]\<rparr>) \<and>
   UnmarshalYAML zero_IP (Inr ''10.0.0.9/24'') =
     (\<lparr>IP_ip = IPv4 10 0 0 9, IP_mask = [255, 255, 255, 0]\<rparr>, None) \<and>
   ApplyIPToMask \<lparr>IP_ip = IPv4 10 0 0 9, IP_mask = [255, 255, 255, 0]\<rparr> [1, 2, 3, 4]
     = Inr (IPv4 11 2 3 9) \<and>
   (12 :: nat) < 16 \<and>
   IPv4 11 2 3 9 ! 12 =
     ((To16 [1, 2, 3, 4] ! 12) AND (IPMask_To16 [255, 255, 255, 0] ! 12)) OR (IPv4 10 0 0 9 ! 12) \<and>
   bit (IPv4 10 0 0 9 ! 12) 1 \<and> bit (IPv4 11 2 3 9 ! 12) 1 \<and>
   bit (IPMask_To16 [255, 255, 255, 0] ! 12) 0 \<and> bit (To16 [1, 2, 3, 4] ! 12) 0 \<and>
   bit (IPv4 11 2 3 9 ! 12) 0"
proof -
  let ?net = "\<lparr>IPNet_IP = [10, 0, 0, 0], IPNet_Mask = [255, 255, 255, 0]\<rparr>"
  let ?p = "\<lparr>IP_ip = IPv4 10 0 0 9, IP_mask = [255, 255, 255, 0]\<rparr>"
  have h: "ParseCIDR ''10.0.0.9/24'' = Inr (IPv4 10 0 0 9, ?net)"
    by (rule parse_cidr_10_0_0_9_24)
  have upd: "zero_IP\<lparr>IP_ip := IPv4 10 0 0 9, IP_mask := [255, 255, 255, 0]\<rparr> = ?p"
    by (simp add: zero_IP_def)
  note t = parse_keeps_full_base_and_merge_ors_it[OF h, of zero_IP, unfolded upd IPNet.select_convs]
  have m: "ApplyIPToMask ?p [1, 2, 3, 4] = Inr (IPv4 11 2 3 9)"
    by (simp add: merge_eval)
  have b: "bit (IPv4 10 0 0 9 ! 12) 1" "bit (IPMask_To16 [255, 255, 255, 0] ! 12) 0"
    by (simp_all add: IPv4_def v4InV6Prefix_def IPMask_To16_def IPv4len_def replicate_numeral')
  have lt: "(12 :: nat) < 16" by simp
  from t have A: "\<And>d r n j. ApplyIPToMask ?p d = Inr r \<Longrightarrow> n < 16 \<Longrightarrow>
      r ! n = ((To16 d ! n) AND (IPMask_To16 [255, 255, 255, 0] ! n)) OR (IPv4 10 0 0 9 ! n) \<and>
      (bit (IPv4 10 0 0 9 ! n) j \<longrightarrow> bit (r ! n) j) \<and>
      (bit (IPMask_To16 [255, 255, 255, 0] ! n) j \<longrightarrow>
         bit (r ! n) j = (bit (To16 d ! n) j \<or> bit (IPv4 10 0 0 9 ! n) j))"
    by blast
  from A[OF m lt, of 1] A[OF m lt, of 0] b
  have "IPv4 11 2 3 9 ! 12 =
        ((To16 [1, 2, 3, 4] ! 12) AND (IPMask_To16 [255, 255, 255, 0] ! 12)) OR (IPv4 10 0 0 9 ! 12)"
    and "bit (IPv4 11 2 3 9 ! 12) 1"
    and "bit (IPv4 11 2 3 9 ! 12) 0 = (bit (To16 [1, 2, 3, 4] ! 12) 0 \<or> bit (IPv4 10 0 0 9 ! 12) 0)"
    by blast+
  moreover have "bit (To16 [1, 2, 3, 4] ! 12) 0"
    by (simp add: To16_def IPv4_def v4InV6Prefix_def IPv4len_def)
  ultimately show ?thesis using h t m b by simp
qed

text \<open>
  Claim C3. For every parsed partial address, the merge with an absent (nil) discovered
  address does not return an address: it panics with \<open>index out of range [0] with
  length 0\<close>. A run of \<open>main\<close> whose configuration has a host of a family whose discovered
  address is absent ends in a panic, and it has exchanged nothing with the server.
\<close>

theorem merge_with_absent_base_panics:
  assumes "UnmarshalYAML i u = (p, None)"
  shows "ApplyIPToMask p [] = Inl (IndexOutOfRange 0 0) \<and>
         (\<forall>config four sixPrefix h now_string now_unix exchange.
            (h, p) \<in> set (Hosts config) \<longrightarrow> (if Is4 p then four else sixPrefix) = [] \<longrightarrow>
            (\<exists>log pn. main_update config four sixPrefix now_string now_unix exchange
                        = (log, Panicked pn) \<and>
                      (\<forall>m s. Exchange m s \<notin> set log)))"
proof (intro conjI allI impI)
  have "IP_Mask [] (IP_mask p) = []"
    using parsed_lengths(2)[OF assms] by (auto simp: IP_Mask_def Let_def IPv4len_def IPv6len_def)
  then show nil: "ApplyIPToMask p [] = Inl (IndexOutOfRange 0 0)"
    by (simp add: ApplyIPToMask_parsed[OF assms])
  fix config :: Config and four sixPrefix :: net_IP and h :: string and now_string :: string
    and now_unix :: "64 word" and exchange :: "Msg \<Rightarrow> string \<Rightarrow> Msg option \<times> error option"
  assume h: "(h, p) \<in> set (Hosts config)" and b: "(if Is4 p then four else sixPrefix) = []"
  from nil b have "ApplyIPToMask p (if Is4 p then four else sixPrefix) = Inl (IndexOutOfRange 0 0)"
    by simp
  from insertions_loop_panics[OF h this] obtain log' pn' where
    l: "insertions_loop config four sixPrefix (Hosts config) [] [] = (log', Inl pn')" by blast
  from insertions_loop_log[OF l] have "\<forall>m s. Exchange m s \<notin> set log'" by auto
  with l show "\<exists>log pn. main_update config four sixPrefix now_string now_unix exchange
                        = (log, Panicked pn) \<and> (\<forall>m s. Exchange m s \<notin> set log)"
    by (simp add: main_update_def)
qed

theorem merge_with_absent_base_panics_witness:
  "UnmarshalYAML zero_IP (Inr ''0.0.0.9/24'') =
     (\<lparr>IP_ip = IPv4 0 0 0 9, IP_mask = [255, 255, 255, 0]\<rparr>, None) \<and>
   ApplyIPToMask \<lparr>IP_ip = IPv4 0 0 0 9, IP_mask = [255, 255, 255, 0]\<rparr> []
     = Inl (IndexOutOfRange 0 0) \<and>
   (''@'', \<lparr>IP_ip = IPv4 0 0 0 9, IP_mask = [255, 255, 255, 0]\<rparr>)
     \<in> set (Hosts \<lparr>Server = ''192.0.2.1:53'', Zone = ''example.org.'', Key = ''update.key.'',
                     TsigSecrets = [], 
                     Hosts = [(''@'', \<lparr>IP_ip = IPv4 0 0 0 9, IP_mask = [255, 255, 255, 0]\<rparr>)],
                     Ttl = 300\<rparr>) \<and>
   Is4 \<lparr>IP_ip = IPv4 0 0 0 9, IP_mask = [255, 255, 255, 0]\<rparr> \<and>
   main_update \<lparr>Server = ''192.0.2.1:53'', Zone = ''example.org.'', Key = ''update.key.'',
                 TsigSecrets = [],
                 Hosts = [(''@'', \<lparr>IP_ip = IPv4 0 0 0 9, IP_mask = [255, 255, 255, 0]\<rparr>)],
                 Ttl = 300\<rparr> [] [] ''now'' 0 (\<lambda>m s. (None, None))
     = ([], Panicked (IndexOutOfRange 0 0))"
proof -
  let ?p = "\<lparr>IP_ip = IPv4 0 0 0 9, IP_mask = [255, 255, 255, 0]\<rparr>"
  let ?c = "\<lparr>Server = ''192.0.2.1:53'', Zone = ''example.org.'', Key = ''update.key.'',
             TsigSecrets = [], Hosts = [(''@'', ?p)], Ttl = 300\<rparr>"
  have h: "UnmarshalYAML zero_IP (Inr ''0.0.0.9/24'') = (?p, None)"
    by (rule parse_0_0_0_9_24)
  have is4: "Is4 ?p"
    by (simp add: Is4_def To4_def isZeros_def IPv4_def v4InV6Prefix_def IPv4len_def IPv6len_def)
  note t = merge_with_absent_base_panics[OF h]
  from t have nil: "ApplyIPToMask ?p [] = Inl (IndexOutOfRange 0 0)" by blast
  from t is4 obtain log pn where
    "main_update ?c [] [] ''now'' 0 (\<lambda>m s. (None, None)) = (log, Panicked pn)"
    by (metis (no_types, lifting) Config.select_convs(5) list.set_intros(1))
  moreover have "main_update ?c [] [] ''now'' 0 (\<lambda>m s. (None, None)) = ([], Panicked (IndexOutOfRange 0 0))"
    using is4 nil by (simp add: main_update_def Let_def)
  ultimately show ?thesis using h nil is4 by simp
qed

section \<open>The resolver\<close>

text \<open>
  Claim C5. \<open>chooseUnicast\<close> keeps, in the order of the list, the addresses that are
  \<open>*net.IPNet\<close> values and global unicast, none of which is a loopback, a link-local or a
  multicast address. \<open>chooseFour\<close> returns the 4-byte form of the first kept address that
  has one, and nil when there is none; \<open>chooseSix\<close> returns the first kept address that
  has no 4-byte form, masked with its own mask (the bytewise conjunction for a 16-byte
  mask), and nil when there is none.
\<close>

theorem resolver_chooses_first_global_unicast:
  "chooseUnicast a = [ipnet. IPNetAddr ipnet \<leftarrow> a, IsGlobalUnicast (IPNet_IP ipnet)] \<and>
   (\<forall>inet \<in> set (chooseUnicast a).
      IsGlobalUnicast (IPNet_IP inet) \<and> \<not> IsLoopback (IPNet_IP inet) \<and>
      \<not> IsLinkLocalUnicast (IPNet_IP inet) \<and> \<not> IsMulticast (IPNet_IP inet)) \<and>
   chooseFour (chooseUnicast a) =
     (case find (\<lambda>inet. To4 (IPNet_IP inet) \<noteq> []) (chooseUnicast a) of
        None \<Rightarrow> [] | Some inet \<Rightarrow> To4 (IPNet_IP inet)) \<and>
   (chooseFour (chooseUnicast a) = [] \<or> length (chooseFour (chooseUnicast a)) = 4) \<and>
   chooseSix (chooseUnicast a) =
     (case find (\<lambda>inet. To4 (IPNet_IP inet) = []) (chooseUnicast a) of
        None \<Rightarrow> [] | Some inet \<Rightarrow> IP_Mask (IPNet_IP inet) (IPNet_Mask inet)) \<and>
   (\<forall>inet \<in> set (chooseUnicast a).
      To4 (IPNet_IP inet) = [] \<longrightarrow> length (IPNet_Mask inet) = 16 \<longrightarrow>
      IP_Mask (IPNet_IP inet) (IPNet_Mask inet)
        = map2 (\<lambda>b k. b AND k) (IPNet_IP inet) (IPNet_Mask inet))"
proof (intro conjI ballI impI)
  show "chooseUnicast a = [ipnet. IPNetAddr ipnet \<leftarrow> a, IsGlobalUnicast (IPNet_IP ipnet)]"
    by (rule chooseUnicast_comprehension)
  show "chooseFour (chooseUnicast a) =
     (case find (\<lambda>inet. To4 (IPNet_IP inet) \<noteq> []) (chooseUnicast a) of
        None \<Rightarrow> [] | Some inet \<Rightarrow> To4 (IPNet_IP inet))"
    by (rule chooseFour_find)
  show "chooseSix (chooseUnicast a) =
     (case find (\<lambda>inet. To4 (IPNet_IP inet) = []) (chooseUnicast a) of
        None \<Rightarrow> [] | Some inet \<Rightarrow> IP_Mask (IPNet_IP inet) (IPNet_Mask inet))"
    by (rule chooseSix_find)
  show "chooseFour (chooseUnicast a) = [] \<or> length (chooseFour (chooseUnicast a)) = 4"
    by (simp add: chooseFour_find length_To4 split: option.splits) (metis length_To4)
next
  fix inet assume "inet \<in> set (chooseUnicast a)"
  then have g: "IsGlobalUnicast (IPNet_IP inet)" by (rule chooseUnicast_global)
  then show "IsGlobalUnicast (IPNet_IP inet)" "\<not> IsLoopback (IPNet_IP inet)"
    "\<not> IsLinkLocalUnicast (IPNet_IP inet)" "\<not> IsMulticast (IPNet_IP inet)"
    by (simp_all add: IsGlobalUnicast_def)
next
  fix inet assume "inet \<in> set (chooseUnicast a)" and v: "To4 (IPNet_IP inet) = []"
    and m: "length (IPNet_Mask inet) = 16"
  then have "length (IPNet_IP inet) = 16" by (auto dest: chooseUnicast_global To4_nil_global)
  then show "IP_Mask (IPNet_IP inet) (IPNet_Mask inet)
        = map2 (\<lambda>b k. b AND k) (IPNet_IP inet) (IPNet_Mask inet)"
    using m by (rule IP_Mask_same_length)
qed

theorem resolver_chooses_first_global_unicast_witness:
  "chooseUnicast example_addrs =
     [\<lparr>IPNet_IP = IPv4 198 100 123 139, IPNet_Mask = [255, 255, 255, 0]\<rparr>,
      \<lparr>IPNet_IP = [0x20, 0x01, 0x04, 0x70, 0x1f, 0x0e, 0x08, 0x3f, 0, 0, 0, 0, 0, 0, 0, 2],
       IPNet_Mask = [255, 255, 255, 255, 255, 255, 255, 255, 0, 0, 0, 0, 0, 0, 0, 0]\<rparr>,
      \<lparr>IPNet_IP = IPv4 203 0 113 5, IPNet_Mask = [255, 255, 255, 0]\<rparr>] \<and>
   IsGlobalUnicast (IPv4 198 100 123 139) \<and> \<not> IsLoopback (IPv4 198 100 123 139) \<and>
   \<not> IsLinkLocalUnicast (IPv4 198 100 123 139) \<and> \<not> IsMulticast (IPv4 198 100 123 139) \<and>
   chooseFour (chooseUnicast example_addrs) = example_four \<and>
   chooseSix (chooseUnicast example_addrs) = example_six \<and>
   To4 [0x20, 0x01, 0x04, 0x70, 0x1f, 0x0e, 0x08, 0x3f, 0, 0, 0, 0, 0, 0, 0, 2] = [] \<and>
   IP_Mask [0x20, 0x01, 0x04, 0x70, 0x1f, 0x0e, 0x08, 0x3f, 0, 0, 0, 0, 0, 0, 0, 2]
       [255, 255, 255, 255, 255, 255, 255, 255, 0, 0, 0, 0, 0, 0, 0, 0] =
     map2 (\<lambda>b k. b AND k) [0x20, 0x01, 0x04, 0x70, 0x1f, 0x0e, 0x08, 0x3f, 0, 0, 0, 0, 0, 0, 0, 2]
       [255, 255, 255, 255, 255, 255, 255, 255, 0, 0, 0, 0, 0, 0, 0, 0]"
proof -
  let ?n4 = "\<lparr>IPNet_IP = IPv4 198 100 123 139, IPNet_Mask = [255, 255, 255, 0]\<rparr>"
  let ?n6 = "\<lparr>IPNet_IP = [0x20, 0x01, 0x04, 0x70, 0x1f, 0x0e, 0x08, 0x3f, 0, 0, 0, 0, 0, 0, 0, 2],
       IPNet_Mask = [255, 255, 255, 255, 255, 255, 255, 255, 0, 0, 0, 0, 0, 0, 0, 0]\<rparr>"
  note cu = example_chooseUnicast
  note t = resolver_chooses_first_global_unicast[of example_addrs]
  have in4: "?n4 \<in> set (chooseUnicast example_addrs)" and in6: "?n6 \<in> set (chooseUnicast example_addrs)"
    by (simp_all add: cu)
  have v6: "To4 (IPNet_IP ?n6) = []" "length (IPNet_Mask ?n6) = 16"
    by (simp_all add: resolver_eval)
  have v4: "To4 (IPNet_IP ?n4) = [198, 100, 123, 139]"
    by (simp add: resolver_eval)
  from t in4 have g: "IsGlobalUnicast (IPNet_IP ?n4) \<and> \<not> IsLoopback (IPNet_IP ?n4) \<and>
      \<not> IsLinkLocalUnicast (IPNet_IP ?n4) \<and> \<not> IsMulticast (IPNet_IP ?n4)"
    by blast
  from t in6 v6 have k: "IP_Mask (IPNet_IP ?n6) (IPNet_Mask ?n6)
        = map2 (\<lambda>b k. b AND k) (IPNet_IP ?n6) (IPNet_Mask ?n6)"
    by blast
  from t have "chooseFour (chooseUnicast example_addrs) =
     (case find (\<lambda>inet. To4 (IPNet_IP inet) \<noteq> []) (chooseUnicast example_addrs) of
        None \<Rightarrow> [] | Some inet \<Rightarrow> To4 (IPNet_IP inet))"
    by blast
  then have four: "chooseFour (chooseUnicast example_addrs) = example_four"
    using v4 by (simp add: cu example_four_def)
  from t have "chooseSix (chooseUnicast example_addrs) =
     (case find (\<lambda>inet. To4 (IPNet_IP inet) = []) (chooseUnicast example_addrs) of
        None \<Rightarrow> [] | Some inet \<Rightarrow> IP_Mask (IPNet_IP inet) (IPNet_Mask inet))"
    by blast
  then have six: "chooseSix (chooseUnicast example_addrs) = example_six"
    using v4 v6 k by (simp add: cu example_six_def)
  from cu g four six v6 k show ?thesis by simp
qed

text \<open>
  Claim C9. An interface whose \<open>Addrs()\<close> returns an error is skipped: the run goes on
  as if the interface were not in the list. An interface with an empty address list
  sets the result of each family it is named for to not-found and leaves the other
  alone. So when every interface named for a family is of one of these two kinds, the
  result of that family is not-found at the end. Neither ends the run: \<open>main\<close> goes on
  to the update with the pair that the loop returns.
\<close>

theorem unusable_interface_contributes_nothing:
  "(iface_Addrs i = Inl e \<longrightarrow>
      resolve_loop fourFrom sixFrom (pre @ i # post) st
        = resolve_loop fourFrom sixFrom (pre @ post) st) \<and>
   (iface_Addrs i = Inr [] \<longrightarrow>
      resolve_loop fourFrom sixFrom (pre @ i # post) st
        = resolve_loop fourFrom sixFrom post
            (if iface_Name i = fourFrom then [] else fst (resolve_loop fourFrom sixFrom pre st),
             if iface_Name i = sixFrom then [] else snd (resolve_loop fourFrom sixFrom pre st))) \<and>
   ((\<forall>j \<in> set ifs. iface_Name j = fourFrom \<longrightarrow>
        (\<exists>err. iface_Addrs j = Inl err) \<or> iface_Addrs j = Inr []) \<longrightarrow>
      fst (resolve_loop fourFrom sixFrom ifs ([], [])) = []) \<and>
   ((\<forall>j \<in> set ifs. iface_Name j = sixFrom \<longrightarrow>
        (\<exists>err. iface_Addrs j = Inl err) \<or> iface_Addrs j = Inr []) \<longrightarrow>
      snd (resolve_loop fourFrom sixFrom ifs ([], [])) = []) \<and>
   main config fourFrom sixFrom (Inr ifs) now_string now_unix exchange
     = main_update config (fst (resolve_loop fourFrom sixFrom ifs ([], [])))
         (snd (resolve_loop fourFrom sixFrom ifs ([], []))) now_string now_unix exchange"
proof (intro conjI impI)
  assume "iface_Addrs i = Inl e"
  then show "resolve_loop fourFrom sixFrom (pre @ i # post) st
        = resolve_loop fourFrom sixFrom (pre @ post) st"
    by (cases "resolve_loop fourFrom sixFrom pre st") (simp add: resolve_loop_append)
next
  assume "iface_Addrs i = Inr []"
  then show "resolve_loop fourFrom sixFrom (pre @ i # post) st
        = resolve_loop fourFrom sixFrom post
            (if iface_Name i = fourFrom then [] else fst (resolve_loop fourFrom sixFrom pre st),
             if iface_Name i = sixFrom then [] else snd (resolve_loop fourFrom sixFrom pre st))"
    by (cases "resolve_loop fourFrom sixFrom pre st") (simp add: resolve_loop_append Let_def)
next
  assume "\<forall>j \<in> set ifs. iface_Name j = fourFrom \<longrightarrow>
        (\<exists>err. iface_Addrs j = Inl err) \<or> iface_Addrs j = Inr []"
  then show "fst (resolve_loop fourFrom sixFrom ifs ([], [])) = []"
    by (rule resolve_loop_four_nil) simp
next
  assume "\<forall>j \<in> set ifs. iface_Name j = sixFrom \<longrightarrow>
        (\<exists>err. iface_Addrs j = Inl err) \<or> iface_Addrs j = Inr []"
  then show "snd (resolve_loop fourFrom sixFrom ifs ([], [])) = []"
    by (rule resolve_loop_six_nil) simp
next
  show "main config fourFrom sixFrom (Inr ifs) now_string now_unix exchange
     = main_update config (fst (resolve_loop fourFrom sixFrom ifs ([], [])))
         (snd (resolve_loop fourFrom sixFrom ifs ([], []))) now_string now_unix exchange"
    by (simp add: main_def split: prod.splits)
qed

theorem unusable_interface_contributes_nothing_witness:
  "iface_Addrs example_iface_error = Inl (OSError ''no such network interface'') \<and>
   resolve_loop ''eth0'' ''br0'' ([] @ example_iface_error # [example_iface_empty]) ([], [])
     = resolve_loop ''eth0'' ''br0'' ([] @ [example_iface_empty]) ([], []) \<and>
   iface_Addrs example_iface_empty = Inr [] \<and>
   resolve_loop ''eth0'' ''br0'' ([example_iface_error] @ example_iface_empty # []) ([], [])
     = ([], []) \<and>
   fst (resolve_loop ''eth0'' ''br0'' [example_iface_error, example_iface_empty] ([], [])) = [] \<and>
   snd (resolve_loop ''eth0'' ''br0'' [example_iface_error, example_iface_empty] ([], [])) = []"
proof -
  have e: "iface_Addrs example_iface_error = Inl (OSError ''no such network interface'')"
    and m: "iface_Addrs example_iface_empty = Inr []"
    and n: "iface_Name example_iface_error = ''eth0''" "iface_Name example_iface_empty = ''br0''"
    by (simp_all add: example_iface_error_def example_iface_empty_def)
  note t1 = unusable_interface_contributes_nothing[where i = example_iface_error
      and e = "OSError ''no such network interface''" and fourFrom = "''eth0''"
      and sixFrom = "''br0''" and pre = "[]" and post = "[example_iface_empty]"
      and st = "([], [])" and ifs = "[example_iface_error, example_iface_empty]"]
  note t2 = unusable_interface_contributes_nothing[where i = example_iface_empty
      and fourFrom = "''eth0''" and sixFrom = "''br0''" and pre = "[example_iface_error]"
      and post = "[]" and st = "([], [])" and ifs = "[example_iface_error, example_iface_empty]"]
  from t1 e have a: "resolve_loop ''eth0'' ''br0'' ([] @ example_iface_error # [example_iface_empty]) ([], [])
     = resolve_loop ''eth0'' ''br0'' ([] @ [example_iface_empty]) ([], [])"
    by blast
  from t2 m have b: "resolve_loop ''eth0'' ''br0'' ([example_iface_error] @ example_iface_empty # []) ([], [])
     = ([], [])"
    by (simp add: e n)
  from t1 have c: "fst (resolve_loop ''eth0'' ''br0'' [example_iface_error, example_iface_empty] ([], [])) = []"
    "snd (resolve_loop ''eth0'' ''br0'' [example_iface_error, example_iface_empty] ([], [])) = []"
    by (simp_all add: e m n)
  from e m a b c show ?thesis by simp
qed

section \<open>The signed update\<close>

text \<open>
  Claim C6. When the merge of every host returns, the loop over the \<open>N\<close> hosts returns
  and the message that \<open>main\<close> exchanges has \<open>2N + 1\<close> records in its section \<open>Ns\<close>:
  for the \<open>k\<close>-th host, in the order of the loop, the record that deletes every record
  of its name at position \<open>2k\<close> and its \<open>A\<close> or \<open>AAAA\<close> record, with the merged address
  and the TTL of the configuration, at position \<open>2k + 1\<close>; and last the \<open>TXT\<close> record of
  the zone's own name with the current time.
\<close>

theorem signed_update_has_2N_plus_1_records:
  assumes "\<forall>(host, ip) \<in> set (Hosts config).
             \<exists>finalIp. ApplyIPToMask ip (if Is4 ip then four else sixPrefix) = Inr finalIp"
  shows "\<exists>log insertions.
     insertions_loop config four sixPrefix (Hosts config) [] [] = (log, Inr insertions) \<and>
     (\<exists>rest st. main_update config four sixPrefix now_string now_unix exchange =
        (log @ Exchange (build_update config insertions now_string now_unix) (Server config) # rest,
         st)) \<and>
     length (msg_Ns (build_update config insertions now_string now_unix))
       = 2 * length (Hosts config) + 1 \<and>
     (\<forall>k < length (Hosts config).
        msg_Ns (build_update config insertions now_string now_unix) ! (2 * k) =
          dns_ANY \<lparr>hdr_Name = joinDomain (fst (Hosts config ! k)) (Zone config),
                   hdr_Rrtype = TypeANY, hdr_Class = ClassANY, hdr_Ttl = 0, hdr_Rdlength = 0\<rparr> \<and>
        (\<exists>finalIp.
           ApplyIPToMask (snd (Hosts config ! k))
               (if Is4 (snd (Hosts config ! k)) then four else sixPrefix) = Inr finalIp \<and>
           msg_Ns (build_update config insertions now_string now_unix) ! (2 * k + 1) =
             (if Is4 (snd (Hosts config ! k))
              then dns_A \<lparr>hdr_Name = joinDomain (fst (Hosts config ! k)) (Zone config),
                          hdr_Rrtype = TypeA, hdr_Class = ClassINET, hdr_Ttl = Ttl config,
                          hdr_Rdlength = 0\<rparr> finalIp
              else dns_AAAA \<lparr>hdr_Name = joinDomain (fst (Hosts config ! k)) (Zone config),
                             hdr_Rrtype = TypeAAAA, hdr_Class = ClassINET, hdr_Ttl = Ttl config,
                             hdr_Rdlength = 0\<rparr> finalIp))) \<and>
     msg_Ns (build_update config insertions now_string now_unix) ! (2 * length (Hosts config)) =
       dns_TXT \<lparr>hdr_Name = Fqdn (Zone config), hdr_Rrtype = TypeTXT, hdr_Class = ClassINET,
                hdr_Ttl = Ttl config, hdr_Rdlength = 0\<rparr> [now_string]"
proof -
  from insertions_loop_structure[OF assms, of config "[]" "[]"] obtain log new where
    l: "insertions_loop config four sixPrefix (Hosts config) [] [] = (log, Inr new)"
    and n: "length new = 2 * length (Hosts config)"
    and s: "\<And>k. k < length (Hosts config) \<Longrightarrow>
        new ! (2 * k) =
          dns_ANY \<lparr>hdr_Name = joinDomain (fst (Hosts config ! k)) (Zone config), hdr_Rrtype = TypeANY,
                   hdr_Class = ClassANY, hdr_Ttl = 0, hdr_Rdlength = 0\<rparr> \<and>
        (\<exists>finalIp.
           ApplyIPToMask (snd (Hosts config ! k)) (if Is4 (snd (Hosts config ! k)) then four else sixPrefix)
             = Inr finalIp \<and>
           new ! (2 * k + 1) =
             (if Is4 (snd (Hosts config ! k))
              then dns_A \<lparr>hdr_Name = joinDomain (fst (Hosts config ! k)) (Zone config),
                          hdr_Rrtype = TypeA, hdr_Class = ClassINET, hdr_Ttl = Ttl config,
                          hdr_Rdlength = 0\<rparr> finalIp
              else dns_AAAA \<lparr>hdr_Name = joinDomain (fst (Hosts config ! k)) (Zone config),
                             hdr_Rrtype = TypeAAAA, hdr_Class = ClassINET, hdr_Ttl = Ttl config,
                             hdr_Rdlength = 0\<rparr> finalIp))"
    by auto
  have lt: "2 * k < length new" "2 * k + 1 < length new" if "k < length (Hosts config)" for k
    using that n by simp_all
  show ?thesis
  proof (rule exI[of _ log], rule exI[of _ new], intro conjI allI impI)
    show "insertions_loop config four sixPrefix (Hosts config) [] [] = (log, Inr new)" by (rule l)
    show "\<exists>rest st. main_update config four sixPrefix now_string now_unix exchange =
        (log @ Exchange (build_update config new now_string now_unix) (Server config) # rest, st)"
      by (simp add: main_update_built[OF l])
    show "length (msg_Ns (build_update config new now_string now_unix)) = 2 * length (Hosts config) + 1"
      by (simp add: msg_Ns_build_update n)
    show "msg_Ns (build_update config new now_string now_unix) ! (2 * length (Hosts config)) =
       dns_TXT \<lparr>hdr_Name = Fqdn (Zone config), hdr_Rrtype = TypeTXT, hdr_Class = ClassINET,
                hdr_Ttl = Ttl config, hdr_Rdlength = 0\<rparr> [now_string]"
      by (simp add: msg_Ns_build_update n[symmetric])
  next
    fix k assume k: "k < length (Hosts config)"
    from s[OF k] lt[OF k]
    show "msg_Ns (build_update config new now_string now_unix) ! (2 * k) =
          dns_ANY \<lparr>hdr_Name = joinDomain (fst (Hosts config ! k)) (Zone config),
                   hdr_Rrtype = TypeANY, hdr_Class = ClassANY, hdr_Ttl = 0, hdr_Rdlength = 0\<rparr>"
      by (simp add: msg_Ns_build_update nth_append)
    from s[OF k] lt[OF k]
    show "\<exists>finalIp.
           ApplyIPToMask (snd (Hosts config ! k))
               (if Is4 (snd (Hosts config ! k)) then four else sixPrefix) = Inr finalIp \<and>
           msg_Ns (build_update config new now_string now_unix) ! (2 * k + 1) =
             (if Is4 (snd (Hosts config ! k))
              then dns_A \<lparr>hdr_Name = joinDomain (fst (Hosts config ! k)) (Zone config),
                          hdr_Rrtype = TypeA, hdr_Class = ClassINET, hdr_Ttl = Ttl config,
                          hdr_Rdlength = 0\<rparr> finalIp
              else dns_AAAA \<lparr>hdr_Name = joinDomain (fst (Hosts config ! k)) (Zone config),
                             hdr_Rrtype = TypeAAAA, hdr_Class = ClassINET, hdr_Ttl = Ttl config,
                             hdr_Rdlength = 0\<rparr> finalIp)"
      by (simp only: msg_Ns_build_update nth_append) (cases "Is4 (snd (Hosts config ! k))"; auto)
  qed
qed

theorem signed_update_has_2N_plus_1_records_witness:
  "Is4 example_host4 \<and> \<not> Is4 example_host6 \<and>
   ApplyIPToMask example_host4 example_four = Inr (IPv4 198 100 123 139) \<and>
   ApplyIPToMask example_host6 example_six =
     Inr [0x20, 0x01, 0x04, 0x70, 0x1f, 0x0e, 0x08, 0x3f,
          0x12, 0x34, 0x12, 0x34, 0x12, 0x34, 0x12, 0x34] \<and>
   (\<exists>log insertions.
      insertions_loop example_config example_four example_six (Hosts example_config) [] []
        = (log, Inr insertions) \<and>
      length (msg_Ns (build_update example_config insertions ''2026-01-01 00:00:00'' 1767225600))
        = 5 \<and>
      msg_Ns (build_update example_config insertions ''2026-01-01 00:00:00'' 1767225600) =
        [dns_ANY \<lparr>hdr_Name = joinDomain ''@'' (Zone example_config), hdr_Rrtype = TypeANY,
                  hdr_Class = ClassANY, hdr_Ttl = 0, hdr_Rdlength = 0\<rparr>,
         dns_A \<lparr>hdr_Name = joinDomain ''@'' (Zone example_config), hdr_Rrtype = TypeA,
                hdr_Class = ClassINET, hdr_Ttl = 300, hdr_Rdlength = 0\<rparr>
           (IPv4 198 100 123 139),
         dns_ANY \<lparr>hdr_Name = joinDomain ''host1'' (Zone example_config), hdr_Rrtype = TypeANY,
                  hdr_Class = ClassANY, hdr_Ttl = 0, hdr_Rdlength = 0\<rparr>,
         dns_AAAA \<lparr>hdr_Name = joinDomain ''host1'' (Zone example_config), hdr_Rrtype = TypeAAAA,
                   hdr_Class = ClassINET, hdr_Ttl = 300, hdr_Rdlength = 0\<rparr>
           [0x20, 0x01, 0x04, 0x70, 0x1f, 0x0e, 0x08, 0x3f,
            0x12, 0x34, 0x12, 0x34, 0x12, 0x34, 0x12, 0x34],
         dns_TXT \<lparr>hdr_Name = Fqdn (Zone example_config), hdr_Rrtype = TypeTXT,
                  hdr_Class = ClassINET, hdr_Ttl = 300, hdr_Rdlength = 0\<rparr>
           [''2026-01-01 00:00:00'']])"
proof -
  let ?Ns = "\<lambda>insertions. msg_Ns (build_update example_config insertions ''2026-01-01 00:00:00'' 1767225600)"
  have c: "length (Hosts example_config) = 2" "Ttl example_config = 300"
    "Hosts example_config ! 0 = (''@'', example_host4)"
    "Hosts example_config ! 1 = (''host1'', example_host6)"
    "Hosts example_config ! Suc 0 = (''host1'', example_host6)"
    by (simp_all add: example_config_def)
  from signed_update_has_2N_plus_1_records[OF example_hyp,
      of "''2026-01-01 00:00:00''" 1767225600 example_exchange_fails]
  obtain log insertions where
    l: "insertions_loop example_config example_four example_six (Hosts example_config) [] []
        = (log, Inr insertions)"
    and n: "length (?Ns insertions) = 5"
    and k: "\<And>k. k < 2 \<Longrightarrow>
        ?Ns insertions ! (2 * k) =
          dns_ANY \<lparr>hdr_Name = joinDomain (fst (Hosts example_config ! k)) (Zone example_config),
                   hdr_Rrtype = TypeANY, hdr_Class = ClassANY, hdr_Ttl = 0, hdr_Rdlength = 0\<rparr> \<and>
        (\<exists>finalIp.
           ApplyIPToMask (snd (Hosts example_config ! k))
               (if Is4 (snd (Hosts example_config ! k)) then example_four else example_six) = Inr finalIp \<and>
           ?Ns insertions ! (2 * k + 1) =
             (if Is4 (snd (Hosts example_config ! k))
              then dns_A \<lparr>hdr_Name = joinDomain (fst (Hosts example_config ! k)) (Zone example_config),
                          hdr_Rrtype = TypeA, hdr_Class = ClassINET, hdr_Ttl = 300,
                          hdr_Rdlength = 0\<rparr> finalIp
              else dns_AAAA \<lparr>hdr_Name = joinDomain (fst (Hosts example_config ! k)) (Zone example_config),
                             hdr_Rrtype = TypeAAAA, hdr_Class = ClassINET, hdr_Ttl = 300,
                             hdr_Rdlength = 0\<rparr> finalIp))"
    and t: "?Ns insertions ! 4 =
       dns_TXT \<lparr>hdr_Name = Fqdn (Zone example_config), hdr_Rrtype = TypeTXT, hdr_Class = ClassINET,
                hdr_Ttl = 300, hdr_Rdlength = 0\<rparr> [''2026-01-01 00:00:00'']"
    unfolding c by auto
  from k[of 0] k[of 1] have r:
    "?Ns insertions ! 0 = dns_ANY \<lparr>hdr_Name = joinDomain ''@'' (Zone example_config), hdr_Rrtype = TypeANY,
                  hdr_Class = ClassANY, hdr_Ttl = 0, hdr_Rdlength = 0\<rparr>"
    "?Ns insertions ! 1 = dns_A \<lparr>hdr_Name = joinDomain ''@'' (Zone example_config), hdr_Rrtype = TypeA,
                hdr_Class = ClassINET, hdr_Ttl = 300, hdr_Rdlength = 0\<rparr> (IPv4 198 100 123 139)"
    "?Ns insertions ! 2 = dns_ANY \<lparr>hdr_Name = joinDomain ''host1'' (Zone example_config), hdr_Rrtype = TypeANY,
                  hdr_Class = ClassANY, hdr_Ttl = 0, hdr_Rdlength = 0\<rparr>"
    "?Ns insertions ! 3 = dns_AAAA \<lparr>hdr_Name = joinDomain ''host1'' (Zone example_config), hdr_Rrtype = TypeAAAA,
                   hdr_Class = ClassINET, hdr_Ttl = 300, hdr_Rdlength = 0\<rparr>
           [0x20, 0x01, 0x04, 0x70, 0x1f, 0x0e, 0x08, 0x3f,
            0x12, 0x34, 0x12, 0x34, 0x12, 0x34, 0x12, 0x34]"
    by (simp_all add: c example_Is4 example_merge4 example_merge6)
  have five: "xs = [xs ! 0, xs ! 1, xs ! 2, xs ! 3, xs ! 4]" if "length xs = 5" for xs :: "RR list"
    using that by (auto simp: numeral_eq_Suc length_Suc_conv)
  from five[OF n] r t have "?Ns insertions = [
         dns_ANY \<lparr>hdr_Name = joinDomain ''@'' (Zone example_config), hdr_Rrtype = TypeANY,
                  hdr_Class = ClassANY, hdr_Ttl = 0, hdr_Rdlength = 0\<rparr>,
         dns_A \<lparr>hdr_Name = joinDomain ''@'' (Zone example_config), hdr_Rrtype = TypeA,
                hdr_Class = ClassINET, hdr_Ttl = 300, hdr_Rdlength = 0\<rparr>
           (IPv4 198 100 123 139),
         dns_ANY \<lparr>hdr_Name = joinDomain ''host1'' (Zone example_config), hdr_Rrtype = TypeANY,
                  hdr_Class = ClassANY, hdr_Ttl = 0, hdr_Rdlength = 0\<rparr>,
         dns_AAAA \<lparr>hdr_Name = joinDomain ''host1'' (Zone example_config), hdr_Rrtype = TypeAAAA,
                   hdr_Class = ClassINET, hdr_Ttl = 300, hdr_Rdlength = 0\<rparr>
           [0x20, 0x01, 0x04, 0x70, 0x1f, 0x0e, 0x08, 0x3f,
            0x12, 0x34, 0x12, 0x34, 0x12, 0x34, 0x12, 0x34],
         dns_TXT \<lparr>hdr_Name = Fqdn (Zone example_config), hdr_Rrtype = TypeTXT,
                  hdr_Class = ClassINET, hdr_Ttl = 300, hdr_Rdlength = 0\<rparr>
           [''2026-01-01 00:00:00'']]"
    by simp
  with l n example_Is4 example_merge4 example_merge6 show ?thesis by blast
qed

text \<open>
  Claim C7. When the loop over the hosts has returned, the message is given to \<open>SetTsig\<close>
  with the key of the configuration, the algorithm \<open>HmacMD5\<close>, a fudge of 300 seconds
  and the current UTC time, and \<open>main\<close> exchanges it with the configured server exactly
  once. When the exchange returns an error, the run logs the reply and then ends with
  \<open>logger.Fatal\<close>; otherwise it returns.
\<close>

theorem signed_update_is_signed_and_exchanged_once:
  assumes "insertions_loop config four sixPrefix (Hosts config) [] [] = (log, Inr insertions)"
  shows "msg_Tsig (build_update config insertions now_string now_unix) =
           [\<lparr>tsig_Name = Key config, tsig_Algorithm = HmacMD5, tsig_Fudge = 300,
             tsig_TimeSigned = now_unix\<rparr>] \<and>
         msg_UpdateZone (build_update config insertions now_string now_unix)
           = Some (Fqdn (Zone config)) \<and>
         main_update config four sixPrefix now_string now_unix exchange =
           (log @ [Exchange (build_update config insertions now_string now_unix) (Server config)] @
              (case snd (exchange (build_update config insertions now_string now_unix)
                           (Server config)) of
                 None \<Rightarrow> []
               | Some e \<Rightarrow>
                   [Print_reply (fst (exchange (build_update config insertions now_string now_unix)
                                        (Server config))),
                    Fatal ''Failed to update DNS sever:'' e]),
            (case snd (exchange (build_update config insertions now_string now_unix)
                         (Server config)) of
               None \<Rightarrow> Returned | Some e \<Rightarrow> Exited)) \<and>
         length (filter (\<lambda>ev. case ev of Exchange m s \<Rightarrow> True | _ \<Rightarrow> False)
                   (fst (main_update config four sixPrefix now_string now_unix exchange))) = 1"
proof (intro conjI)
  show "msg_Tsig (build_update config insertions now_string now_unix) =
           [\<lparr>tsig_Name = Key config, tsig_Algorithm = HmacMD5, tsig_Fudge = 300,
             tsig_TimeSigned = now_unix\<rparr>]"
    by (simp add: build_update_def SetTsig_def SetUpdate_def Let_def)
  show "msg_UpdateZone (build_update config insertions now_string now_unix)
           = Some (Fqdn (Zone config))"
    by (simp add: build_update_def SetTsig_def SetUpdate_def Let_def)
  show "main_update config four sixPrefix now_string now_unix exchange =
           (log @ [Exchange (build_update config insertions now_string now_unix) (Server config)] @
              (case snd (exchange (build_update config insertions now_string now_unix)
                           (Server config)) of
                 None \<Rightarrow> []
               | Some e \<Rightarrow>
                   [Print_reply (fst (exchange (build_update config insertions now_string now_unix)
                                        (Server config))),
                    Fatal ''Failed to update DNS sever:'' e]),
            (case snd (exchange (build_update config insertions now_string now_unix)
                         (Server config)) of
               None \<Rightarrow> Returned | Some e \<Rightarrow> Exited))"
    by (rule main_update_built[OF assms])
  from insertions_loop_log[OF assms] have "\<forall>m s. Exchange m s \<notin> set log" by simp
  then have "filter (\<lambda>ev. case ev of Exchange m s \<Rightarrow> True | _ \<Rightarrow> False) log = []"
    by (auto simp: filter_empty_conv split: event.splits)
  then show "length (filter (\<lambda>ev. case ev of Exchange m s \<Rightarrow> True | _ \<Rightarrow> False)
                   (fst (main_update config four sixPrefix now_string now_unix exchange))) = 1"
    by (simp add: main_update_built[OF assms] split: option.splits)
qed

theorem signed_update_is_signed_and_exchanged_once_witness:
  "insertions_loop example_config example_four example_six (Hosts example_config) [] [] =
     (example_log, Inr example_insertions) \<and>
   msg_Tsig (build_update example_config example_insertions ''2026-01-01 00:00:00'' 1767225600) =
     [\<lparr>tsig_Name = ''update.key.'', tsig_Algorithm = HmacMD5, tsig_Fudge = 300,
       tsig_TimeSigned = 1767225600\<rparr>] \<and>
   main_update example_config example_four example_six ''2026-01-01 00:00:00'' 1767225600
       example_exchange_fails =
     (example_log @
        [Exchange (build_update example_config example_insertions ''2026-01-01 00:00:00''
                     1767225600) ''192.0.2.53:53'',
         Print_reply None,
         Fatal ''Failed to update DNS sever:'' (OSError ''i/o timeout'')],
      Exited) \<and>
   length (filter (\<lambda>ev. case ev of Exchange m s \<Rightarrow> True | _ \<Rightarrow> False)
             (fst (main_update example_config example_four example_six ''2026-01-01 00:00:00''
                     1767225600 example_exchange_fails))) = 1"
proof -
  have c: "Key example_config = ''update.key.''" "Server example_config = ''192.0.2.53:53''"
    by (simp_all add: example_config_def)
  from signed_update_is_signed_and_exchanged_once[OF example_loop',
      of "''2026-01-01 00:00:00''" 1767225600 example_exchange_fails]
  show ?thesis
    unfolding c by (simp add: example_loop' example_exchange_fails_def example_log_def)
qed

section \<open>The provider update\<close>

text \<open>
  Claim C4. The claim is that every record carries the TTL of the configuration in both
  versions of the program. The signed update does (see C6). The provider update does
  not: for the example configuration with a TTL of 600 both requests carry the TTL 300
  that \<open>SetARecord\<close> and \<open>SetAAAARecord\<close> write out.
\<close>

theorem provider_update_ignores_configured_ttl:
  "az_Ttl example_config_azure = 600 \<and>
   main_azure example_config_azure example_four example_six =
     ([\<lparr>req_resourceGroup = ''dns-rg'', req_zone = ''fully.qualified.update.zone'',
        req_host = ''@'', req_recordType = RecordA, req_TTL = 300,
        req_address = IPv4 198 100 123 139\<rparr>,
       \<lparr>req_resourceGroup = ''dns-rg'', req_zone = ''fully.qualified.update.zone'',
        req_host = ''host1'', req_recordType = RecordAAAA, req_TTL = 300,
        req_address = [0x20, 0x01, 0x04, 0x70, 0x1f, 0x0e, 0x08, 0x3f,
                       0x12, 0x34, 0x12, 0x34, 0x12, 0x34, 0x12, 0x34]\<rparr>],
      None)"
  by (simp add: example_config_azure_def main_azure_def newAzureDnsUpdater_def example_Is4
        example_merge4 example_merge6 SetARecord_def SetAAAARecord_def)

end
